theory Spec2Isabelle
  imports Main "HOL-Library.Word" "HOL-Library.Sublist"
begin

section \<open>Python values used by \<open>internal_birefnet/pipeline.py\<close>\<close>

text \<open>
  Exceptions are values: every function of the pipeline that can raise returns
  \<open>error + 'a\<close>, with \<open>Inl\<close> for the exception that leaves the function.
  \<open>OtherError\<close> stands for any exception of the wrapped libraries that the
  pipeline neither raises nor inspects itself.
\<close>

datatype error =
  ValueError | TypeError | RuntimeError | KeyError | OverflowError | MemoryError
  | NotADirectoryError | OtherError

text \<open>
  A two-dimensional numpy array is the list of its rows; \<open>uint8\<close> values are
  8-bit words, so arithmetic on them wraps as numpy's does.
\<close>

type_synonym 'a array2 = "'a list list"

type_synonym uint8 = "8 word"

definition nrows :: "'a array2 \<Rightarrow> nat" where
  "nrows a = length a"

definition ncols :: "'a array2 \<Rightarrow> nat" where
  "ncols a = (case a of [] \<Rightarrow> 0 | r # _ \<Rightarrow> length r)"

text \<open>\<open>a.size\<close>: the number of elements.\<close>

definition array_size :: "'a array2 \<Rightarrow> nat" where
  "array_size a = sum_list (map length a)"

text \<open>\<open>np.arange(n)\<close> for an integer \<open>n\<close>, and \<open>np.meshgrid(xs, ys)\<close> with its
  default \<open>xy\<close> indexing: both results have one row per element of \<open>ys\<close>.\<close>

definition arange :: "int \<Rightarrow> int list" where
  "arange n = map int [0..<nat n]"

definition meshgrid :: "int list \<Rightarrow> int list \<Rightarrow> int array2 \<times> int array2" where
  "meshgrid xs ys = (map (\<lambda>_. xs) ys, map (\<lambda>y. map (\<lambda>_. y) xs) ys)"

section \<open>The binary morphology of \<open>scipy.ndimage\<close>\<close>

text \<open>
  \<open>binary_dilation\<close> and \<open>binary_erosion\<close> are called with an input and a
  structure only, so \<open>iterations = 1\<close>, \<open>border_value = 0\<close> and \<open>origin = 0\<close>.
  Both read the input as booleans (non-zero is true) and take every position outside
  the input as false. The structure's centre is the cell \<open>shape // 2\<close> on each axis.
  Erosion sets an output cell when every true cell of the structure, laid with its
  centre on that cell, covers a true input cell; dilation sets it when some true
  input cell, with the structure laid on it, reaches that cell. Both raise
  \<open>RuntimeError\<close> (structure must not be empty) for a structure without elements.
\<close>

definition foreground :: "uint8 array2 \<Rightarrow> int \<Rightarrow> int \<Rightarrow> bool" where
  "foreground input i j =
     (0 \<le> i \<and> i < int (nrows input) \<and> 0 \<le> j \<and> j < int (ncols input)
      \<and> input ! nat i ! nat j \<noteq> 0)"

definition structure_offsets :: "uint8 array2 \<Rightarrow> (int \<times> int) list" where
  "structure_offsets structure =
     concat (map (\<lambda>a. concat (map (\<lambda>b.
        if structure ! a ! b \<noteq> 0
        then [(int a - int (nrows structure div 2), int b - int (ncols structure div 2))]
        else []) [0..<ncols structure])) [0..<nrows structure])"

definition binary_erosion :: "uint8 array2 \<Rightarrow> uint8 array2 \<Rightarrow> error + bool array2" where
  "binary_erosion input structure =
     (if array_size structure < 1 then Inl RuntimeError
      else Inr (map (\<lambda>i. map (\<lambda>j.
             list_all (\<lambda>(da, db). foreground input (int i + da) (int j + db))
               (structure_offsets structure))
             [0..<ncols input]) [0..<nrows input]))"

definition binary_dilation :: "uint8 array2 \<Rightarrow> uint8 array2 \<Rightarrow> error + bool array2" where
  "binary_dilation input structure =
     (if array_size structure < 1 then Inl RuntimeError
      else Inr (map (\<lambda>i. map (\<lambda>j.
             list_ex (\<lambda>(da, db). foreground input (int i - da) (int j - db))
               (structure_offsets structure))
             [0..<ncols input]) [0..<nrows input]))"

section \<open>\<open>BiRefNetPipeline.dilate_mask\<close> and \<open>get_edge_mask\<close>\<close>

text \<open>
  The kernel expression of \<open>dilate_mask\<close>, written twice in the source (once in
  each branch): \<open>((x - center) ** 2 + (y - center) ** 2 <= center ** 2).astype(np.uint8)\<close>,
  elementwise over the two grids.
\<close>

definition dilation_kernel :: "int array2 \<Rightarrow> int array2 \<Rightarrow> int \<Rightarrow> uint8 array2" where
  "dilation_kernel x y center =
     map2 (\<lambda>xr yr. map2 (\<lambda>xv yv.
        if (xv - center)\<^sup>2 + (yv - center)\<^sup>2 \<le> center\<^sup>2 then 1 else 0) xr yr) x y"

text \<open>
  An image of mode \<open>L\<close> is the array of its pixels (\<open>np.asarray\<close> and
  \<open>Image.fromarray\<close> are the identity on it).
\<close>

definition dilate_mask :: "uint8 array2 \<Rightarrow> int \<Rightarrow> error + bool array2" where
  "dilate_mask mask_img dilation_amt =
     (let dilation_amt_abs = \<bar>dilation_amt\<bar>;
          (x, y) = meshgrid (arange dilation_amt_abs) (arange dilation_amt_abs);
          center = dilation_amt_abs div 2
      in if dilation_amt < 0
         then binary_erosion mask_img (dilation_kernel x y center)
         else binary_dilation mask_img (dilation_kernel x y center))"

text \<open>The structuring element that \<open>dilate_mask\<close> builds for an amount: the
  kernel of the branch the amount selects.\<close>

definition structuring_element :: "int \<Rightarrow> uint8 array2" where
  "structuring_element dilation_amt =
     (let dilation_amt_abs = \<bar>dilation_amt\<bar>;
          (x, y) = meshgrid (arange dilation_amt_abs) (arange dilation_amt_abs);
          center = dilation_amt_abs div 2
      in if dilation_amt < 0
         then dilation_kernel x y center
         else dilation_kernel x y center)"

text \<open>\<open>a ^ b\<close> on boolean arrays, and \<open>binary_img.astype(np.uint8) * 255\<close>.\<close>

definition array_xor :: "bool array2 \<Rightarrow> bool array2 \<Rightarrow> bool array2" where
  "array_xor a b = map2 (\<lambda>ar br. map2 (\<lambda>p q. p \<noteq> q) ar br) a b"

definition astype_uint8_times_255 :: "bool array2 \<Rightarrow> uint8 array2" where
  "astype_uint8_times_255 a = map (map (\<lambda>p. (if p then 1 else 0) * 255)) a"

definition get_edge_mask :: "uint8 array2 \<Rightarrow> int \<Rightarrow> error + uint8 array2" where
  "get_edge_mask mask_img mask_width =
     (let dilation_amt = mask_width div 2 in
      case dilate_mask mask_img dilation_amt of
        Inl e \<Rightarrow> Inl e
      | Inr dilate_binary_img \<Rightarrow>
          (case dilate_mask mask_img (- dilation_amt) of
             Inl e \<Rightarrow> Inl e
           | Inr erode_binary_img \<Rightarrow>
               Inr (astype_uint8_times_255 (array_xor dilate_binary_img erode_binary_img))))"


section \<open>Strings and integers\<close>

text \<open>
  A Python string is the list of its characters; the model covers code points below
  256, where \<open>str.isspace\<close> holds of the characters below and the decimal digits are
  \<open>0\<close> to \<open>9\<close>. \<open>str.strip()\<close> removes leading and trailing whitespace, and
  \<open>s.split(sep)\<close> cuts at every occurrence of a one-character separator.
\<close>

definition is_space :: "char \<Rightarrow> bool" where
  "is_space c =
     (let n = (of_char c :: nat)
      in (9 \<le> n \<and> n \<le> 13) \<or> (28 \<le> n \<and> n \<le> 32) \<or> n = 133 \<or> n = 160)"

definition strip :: "string \<Rightarrow> string" where
  "strip s = rev (dropWhile is_space (rev (dropWhile is_space s)))"

fun str_split :: "char \<Rightarrow> string \<Rightarrow> string list" where
  "str_split sep [] = [[]]"
| "str_split sep (c # cs) =
     (if c = sep then [] # str_split sep cs
      else (case str_split sep cs of [] \<Rightarrow> [[c]] | p # ps \<Rightarrow> (c # p) # ps))"

definition is_digit :: "char \<Rightarrow> bool" where
  "is_digit c = (48 \<le> (of_char c :: nat) \<and> (of_char c :: nat) \<le> 57)"

definition digit_value :: "char \<Rightarrow> nat" where
  "digit_value c = of_char c - 48"

definition digit_char :: "nat \<Rightarrow> char" where
  "digit_char d = ''0123456789'' ! d"

text \<open>\<open>str(n)\<close> and the \<open>{n}\<close> of an f-string, for an integer.\<close>

fun str_nat :: "nat \<Rightarrow> string" where
  "str_nat n =
     (if n < 10 then [digit_char n] else str_nat (n div 10) @ [digit_char (n mod 10)])"

declare str_nat.simps [simp del]

definition str_int :: "int \<Rightarrow> string" where
  "str_int i = (if i < 0 then CHR ''-'' # str_nat (nat (- i)) else str_nat (nat i))"

text \<open>
  \<open>int(s)\<close> for a string: whitespace around the literal is ignored, a sign may come
  first, and the digits may be grouped by single underscores between two digits.
  Anything else raises \<open>ValueError\<close>. The whitespace that \<open>int\<close> skips is
  not that of \<open>str.strip\<close>: the separators \<open>0x1C\<close> to \<open>0x1F\<close> are whitespace
  for \<open>str.isspace\<close> and characters like any other for \<open>int\<close>, which refuses
  them.

  The number of digits that \<open>int\<close> and \<open>str\<close> accept is a setting of the
  interpreter (\<open>sys.set_int_max_str_digits\<close>, absent before CPython 3.10.7); the
  model is of the setting 0, no limit. Under the default setting, 4300, \<open>int\<close>
  raises \<open>ValueError\<close> for a literal of more digits; the width and the height
  of an image never have that many.
\<close>

definition is_int_space :: "char \<Rightarrow> bool" where
  "is_int_space c =
     (let n = (of_char c :: nat)
      in (9 \<le> n \<and> n \<le> 13) \<or> n = 32 \<or> n = 133 \<or> n = 160)"

definition int_strip :: "string \<Rightarrow> string" where
  "int_strip s = rev (dropWhile is_int_space (rev (dropWhile is_int_space s)))"

fun more_digits :: "nat \<Rightarrow> string \<Rightarrow> nat option" where
  "more_digits acc [] = Some acc"
| "more_digits acc (c # cs) =
     (if is_digit c then more_digits (acc * 10 + digit_value c) cs
      else if c = CHR ''_'' then
        (case cs of
           [] \<Rightarrow> None
         | d # ds \<Rightarrow> if is_digit d then more_digits (acc * 10 + digit_value d) ds else None)
      else None)"

definition decimal :: "string \<Rightarrow> nat option" where
  "decimal s =
     (case s of
        [] \<Rightarrow> None
      | c # cs \<Rightarrow> if is_digit c then more_digits (digit_value c) cs else None)"

definition py_int :: "string \<Rightarrow> error + int" where
  "py_int s =
     (case int_strip s of
        [] \<Rightarrow> Inl ValueError
      | c # cs \<Rightarrow>
          if c = CHR ''-'' then
            (case decimal cs of None \<Rightarrow> Inl ValueError | Some n \<Rightarrow> Inr (- int n))
          else if c = CHR ''+'' then
            (case decimal cs of None \<Rightarrow> Inl ValueError | Some n \<Rightarrow> Inr (int n))
          else
            (case decimal (c # cs) of None \<Rightarrow> Inl ValueError | Some n \<Rightarrow> Inr (int n)))"

section \<open>The model registry and the download of weights\<close>

definition usage_to_weights_file :: "(string \<times> string) list" where
  "usage_to_weights_file =
     [(''General'', ''BiRefNet''),
      (''General-HR'', ''BiRefNet_HR''),
      (''General-Lite'', ''BiRefNet_T''),
      (''General-Lite-2K'', ''BiRefNet_lite-2K''),
      (''Portrait'', ''BiRefNet-portrait''),
      (''Matting'', ''BiRefNet-matting''),
      (''Matting-HR'', ''BiRefNet_HR-matting''),
      (''Matting-Lite'', ''BiRefNet_lite-matting''),
      (''Anime-Lite'', ''BiRefNet_lite-anime''),
      (''Dynamic'', ''BiRefNet_dynamic''),
      (''DIS'', ''BiRefNet-DIS5K''),
      (''HRSOD'', ''BiRefNet-HRSOD''),
      (''COD'', ''BiRefNet-COD''),
      (''DIS-TR_TEs'', ''BiRefNet-DIS5K-TR_TEs'')]"

text \<open>The values that the type \<open>BiRefNetModelName\<close> (a \<open>Literal\<close>) admits.\<close>

definition BiRefNetModelName :: "string list" where
  "BiRefNetModelName =
     [''General'', ''General-HR'', ''General-Lite'', ''General-Lite-2K'', ''Portrait'',
      ''Matting'', ''Matting-HR'', ''Matting-Lite'', ''Anime-Lite'', ''Dynamic'', ''DIS'',
      ''HRSOD'', ''COD'', ''DIS-TR_TEs'']"

text \<open>\<open>os.path.join\<close> of two components (POSIX): a second component that is
  absolute replaces the first.\<close>

definition os_path_join :: "string \<Rightarrow> string \<Rightarrow> string" where
  "os_path_join a b =
     (if b \<noteq> [] \<and> hd b = CHR ''/'' then b
      else if a = [] \<or> last a = CHR ''/'' then a @ b
      else a @ ''/'' @ b)"

text \<open>\<open>models_path\<close> is fixed when the module is imported (the host
  application's models directory, or \<open>os.path.abspath("models")\<close>); it is a
  parameter here.\<close>

definition get_model_path :: "string \<Rightarrow> string \<Rightarrow> string" where
  "get_model_path models_path model_name =
     os_path_join (os_path_join models_path ''birefnet'') (model_name @ ''.safetensors'')"

text \<open>
  The file system as the pipeline sees it: the files with their contents, the
  directories, the directories that the operating system will not create (no
  permission, a read-only file system), each with the exception it raises, and the
  calls of \<open>load_file_from_url\<close> made so far, each with its \<open>url\<close>,
  \<open>model_dir\<close> and \<open>file_name\<close>. \<open>load_file_from_url\<close> belongs to the host
  application; what it does to files and directories is a parameter, and it may
  raise.
\<close>

record 'b os_state =
  files :: "string \<rightharpoonup> 'b"
  dirs :: "string set"
  refused :: "string \<rightharpoonup> error"
  requests :: "(string \<times> string \<times> string) list"

type_synonym 'b fetcher =
  "string \<Rightarrow> string \<Rightarrow> string \<Rightarrow> (string \<rightharpoonup> 'b) \<times> string set
     \<Rightarrow> error + (string \<rightharpoonup> 'b) \<times> string set"

definition path_exists :: "'b os_state \<Rightarrow> string \<Rightarrow> bool" where
  "path_exists st path = (files st path \<noteq> None \<or> path \<in> dirs st)"

text \<open>
  \<open>os.makedirs(path, exist_ok=True)\<close>, called for a path that does not exist. The
  directories above \<open>path\<close> are its prefixes that end before a \<open>/\<close>. When one of
  them is a regular file the call raises \<open>NotADirectoryError\<close>; when the operating
  system will not create the directory it raises what the system reports;
  otherwise \<open>path\<close> and the directories above it exist afterwards.
\<close>

definition ancestors :: "string \<Rightarrow> string list" where
  "ancestors path = map (\<lambda>i. take i path) (filter (\<lambda>i. path ! i = CHR ''/'') [1..<length path])"

definition makedirs :: "string \<Rightarrow> 'b os_state \<Rightarrow> error + 'b os_state" where
  "makedirs path st =
     (if list_ex (\<lambda>p. files st p \<noteq> None) (ancestors path) then Inl NotADirectoryError
      else (case refused st path of
              Some e \<Rightarrow> Inl e
            | None \<Rightarrow> Inr (st\<lparr>dirs := dirs st \<union> set (ancestors path) \<union> {path}\<rparr>)))"

text \<open>The \<open>for\<close> loop of \<open>download_models\<close>.\<close>

fun download_each ::
  "'b fetcher \<Rightarrow> string \<Rightarrow> (string \<times> string) list \<Rightarrow> 'b os_state
     \<Rightarrow> (error + unit) \<times> 'b os_state" where
  "download_each load_file_from_url model_root [] st = (Inr (), st)"
| "download_each load_file_from_url model_root ((local_file, url) # rest) st =
     (let local_path = os_path_join model_root local_file in
      if \<not> path_exists st local_path then
        (let st1 = st\<lparr>requests := requests st @ [(url, model_root, local_file)]\<rparr> in
         case load_file_from_url url model_root local_file (files st1, dirs st1) of
           Inl e \<Rightarrow> (Inl e, st1)
         | Inr (fs, ds) \<Rightarrow>
             download_each load_file_from_url model_root rest (st1\<lparr>files := fs, dirs := ds\<rparr>))
      else download_each load_file_from_url model_root rest st)"

definition download_models ::
  "'b fetcher \<Rightarrow> string \<Rightarrow> (string \<times> string) list \<Rightarrow> 'b os_state
     \<Rightarrow> (error + unit) \<times> 'b os_state" where
  "download_models load_file_from_url model_root model_urls st =
     (if \<not> path_exists st model_root then
        (case makedirs model_root st of
           Inl e \<Rightarrow> (Inl e, st)
         | Inr st1 \<Rightarrow> download_each load_file_from_url model_root model_urls st1)
      else download_each load_file_from_url model_root model_urls st)"

definition download_birefnet_model ::
  "'b fetcher \<Rightarrow> string \<Rightarrow> string \<Rightarrow> 'b os_state \<Rightarrow> (error + unit) \<times> 'b os_state" where
  "download_birefnet_model load_file_from_url models_path model_name st =
     (let model_root = os_path_join models_path ''birefnet'' in
      case map_of usage_to_weights_file model_name of
        None \<Rightarrow> (Inl KeyError, st)
      | Some weights_file \<Rightarrow>
          download_models load_file_from_url model_root
            [(model_name @ ''.safetensors'',
              ''https://huggingface.co/ZhengPeng7/'' @ weights_file
                @ ''/resolve/main/model.safetensors'')] st)"

section \<open>Images\<close>

text \<open>
  A PIL image is the array of its pixels, one row per line of the image;
  \<open>image.size\<close> is \<open>(width, height)\<close>. The pixel type of the input image is left
  open; a mask (mode \<open>L\<close>) has \<open>uint8\<close> pixels.
\<close>

type_synonym 'p image = "'p array2"

definition width :: "'p image \<Rightarrow> int" where
  "width img = int (ncols img)"

definition height :: "'p image \<Rightarrow> int" where
  "height img = int (nrows img)"

text \<open>
  \<open>Image.resize(size)\<close>: an image that already has the requested size is copied.
  Otherwise the two dimensions go to the library's C code as C integers
  (\<open>OverflowError\<close> outside 32 bits) and must be positive (\<open>ValueError\<close>: height
  and width must be > 0). The library then allocates and resamples, which is a
  parameter: \<open>resample img (w, h)\<close> raises (\<open>MemoryError\<close> for an image it
  cannot hold) or gives the pixels, \<open>px r c\<close> at row \<open>r\<close> and column \<open>c\<close>, of
  \<open>img\<close> resampled to \<open>w\<close> by \<open>h\<close>; the result has exactly the requested
  size. A size that is not a pair is refused by the library.
\<close>

type_synonym 'p resampler = "'p image \<Rightarrow> nat \<times> nat \<Rightarrow> error + (nat \<Rightarrow> nat \<Rightarrow> 'p)"

definition resize :: "'p resampler \<Rightarrow> 'p image \<Rightarrow> int list \<Rightarrow> error + 'p image" where
  "resize resample img sz =
     (case sz of
        [w, h] \<Rightarrow>
          if (w, h) = (width img, height img) then Inr img
          else if w < - (2 ^ 31) \<or> 2 ^ 31 \<le> w \<or> h < - (2 ^ 31) \<or> 2 ^ 31 \<le> h
          then Inl OverflowError
          else if w < 1 \<or> h < 1 then Inl ValueError
          else (case resample img (nat w, nat h) of
                  Inl e \<Rightarrow> Inl e
                | Inr px \<Rightarrow>
                    Inr (map (\<lambda>r. map (\<lambda>c. px r c) [0..<nat w]) [0..<nat h]))
      | _ \<Rightarrow> Inl TypeError)"

text \<open>\<open>foreground.putalpha(mask)\<close>: the band is added pixel by pixel; images of
  different sizes do not match (\<open>ValueError\<close>).\<close>

definition putalpha :: "'p image \<Rightarrow> uint8 image \<Rightarrow> error + ('p \<times> uint8) image" where
  "putalpha img alpha =
     (if (width img, height img) \<noteq> (width alpha, height alpha) then Inl ValueError
      else Inr (map2 (\<lambda>row arow. zip row arow) img alpha))"

section \<open>\<open>BiRefNetPipeline.process\<close>\<close>

text \<open>
  The operations of torch, torchvision and the BiRefNet package that \<open>process\<close>
  calls are parameters; each may raise.
  \<^item> \<open>resample_image\<close>, \<open>resample_mask\<close>: the resampling filters of \<open>resize\<close>;
  \<^item> \<open>transform_image\<close>: \<open>ToTensor\<close> and \<open>Normalize\<close>, then \<open>unsqueeze(0)\<close>;
  \<^item> \<open>half\<close>: \<open>Tensor.half\<close>;
  \<^item> \<open>forward\<close>: the network on a device,
    \<open>birefnet(image_proc.to(device))[-1].sigmoid()\<close>, then \<open>[0].squeeze().cpu()\<close>;
  \<^item> \<open>to_pil_image\<close>: \<open>transforms.ToPILImage()\<close>;
  \<^item> \<open>refine_foreground\<close>: \<open>birefnet.image_proc.refine_foreground\<close>.
\<close>

record ('p, 't, 'w) torch_api =
  resample_image :: "'p resampler"
  resample_mask :: "uint8 resampler"
  transform_image :: "'p image \<Rightarrow> error + 't"
  half :: "'t \<Rightarrow> 't"
  forward :: "'w \<Rightarrow> string \<Rightarrow> 't \<Rightarrow> error + 't"
  to_pil_image :: "'t \<Rightarrow> error + uint8 image"
  refine_foreground :: "'p image \<Rightarrow> uint8 image \<Rightarrow> error + 'p image"

text \<open>The attributes of a \<open>BiRefNetPipeline\<close>; \<open>birefnet\<close> is the loaded network.\<close>

record 'w pipeline =
  model_name :: string
  device_id :: int
  flag_force_cpu :: bool
  use_fp16 :: bool
  device :: string
  birefnet :: 'w

text \<open>\<open>ImagePreprocessor.proc\<close>.\<close>

definition proc :: "('p, 't, 'w) torch_api \<Rightarrow> 'p image \<Rightarrow> error + 't" where
  "proc api img = transform_image api img"

text \<open>The list comprehension \<open>[int(int(reso) // 32 * 32) for reso in ...]\<close>:
  the first part that is not an integer literal raises.\<close>

fun round_resolutions :: "string list \<Rightarrow> error + int list" where
  "round_resolutions [] = Inr []"
| "round_resolutions (reso # rest) =
     (case py_int reso of
        Inl e \<Rightarrow> Inl e
      | Inr v \<Rightarrow>
          (case round_resolutions rest of
             Inl e \<Rightarrow> Inl e
           | Inr vs \<Rightarrow> Inr (v div 32 * 32 # vs)))"

text \<open>Lines 178 to 184 of \<open>process\<close>: the working resolution.\<close>

definition working_resolution :: "'p image \<Rightarrow> string \<Rightarrow> error + int list" where
  "working_resolution img resolution =
     (let image_resolution =
            (if resolution = [] then str_int (width img) @ ''x'' @ str_int (height img)
             else resolution)
      in round_resolutions (str_split CHR ''x'' (strip image_resolution)))"

text \<open>
  \<open>process\<close> takes and returns, next to its result, the list of the images that
  have been handed to the network so far (each as the resized image its tensor was
  made from): a forward pass appends to it.
\<close>

definition process ::
  "('p, 't, 'w) torch_api \<Rightarrow> 'w pipeline \<Rightarrow> 'p image \<Rightarrow> string \<Rightarrow> bool \<Rightarrow> bool \<Rightarrow> bool \<Rightarrow> int
     \<Rightarrow> 'p image list
     \<Rightarrow> (error + uint8 image option \<times> ('p \<times> uint8) image option \<times> uint8 image option)
         \<times> 'p image list" where
  "process api self img resolution return_mask return_foreground return_edge_mask
     edge_mask_width forwarded =
     (if \<not> return_mask \<and> \<not> return_foreground \<and> \<not> return_edge_mask
      then (Inr (None, None, None), forwarded)
      else
        case working_resolution img resolution of
          Inl e \<Rightarrow> (Inl e, forwarded)
        | Inr image_resolution \<Rightarrow>
        case resize (resample_image api) img image_resolution of
          Inl e \<Rightarrow> (Inl e, forwarded)
        | Inr image_pil \<Rightarrow>
        case proc api image_pil of
          Inl e \<Rightarrow> (Inl e, forwarded)
        | Inr image_proc \<Rightarrow>
        let image_proc = (if use_fp16 self then half api image_proc else image_proc) in
        (case forward api (birefnet self) (device self) image_proc of
           Inl e \<Rightarrow> Inl e
         | Inr pred \<Rightarrow>
         case to_pil_image api pred of
           Inl e \<Rightarrow> Inl e
         | Inr pred_image \<Rightarrow>
         case resize (resample_mask api) pred_image [width img, height img] of
           Inl e \<Rightarrow> Inl e
         | Inr mask_img \<Rightarrow>
         case (if return_foreground
               then (case refine_foreground api img mask_img of
                       Inl e \<Rightarrow> Inl e
                     | Inr fg \<Rightarrow>
                         (case putalpha fg mask_img of
                            Inl e \<Rightarrow> Inl e
                          | Inr fg_alpha \<Rightarrow> Inr (Some fg_alpha)))
               else Inr None) of
           Inl e \<Rightarrow> Inl e
         | Inr foreground_img \<Rightarrow>
         case (if return_edge_mask
               then (case get_edge_mask mask_img edge_mask_width of
                       Inl e \<Rightarrow> Inl e
                     | Inr edge \<Rightarrow> Inr (Some edge))
               else Inr None) of
           Inl e \<Rightarrow> Inl e
         | Inr edge_mask \<Rightarrow>
             Inr (if \<not> return_mask then None else Some mask_img, foreground_img, edge_mask),
         forwarded @ [image_pil]))"

section \<open>\<open>BiRefNetPipeline.__init__\<close>\<close>

text \<open>
  The body of the \<open>try\<close> of lines 118 to 124. \<open>mps_is_available\<close> and
  \<open>cuda_is_available\<close> are what the two queries of torch do when they are called:
  return a boolean or raise. The second is only called when the first returns false.
\<close>

definition detect_device :: "(error + bool) \<Rightarrow> (error + bool) \<Rightarrow> int \<Rightarrow> error + string" where
  "detect_device mps_is_available cuda_is_available dev_id =
     (case mps_is_available of
        Inl e \<Rightarrow> Inl e
      | Inr True \<Rightarrow> Inr ''mps''
      | Inr False \<Rightarrow>
          (case cuda_is_available of
             Inl e \<Rightarrow> Inl e
           | Inr True \<Rightarrow> Inr (''cuda:'' @ str_int dev_id)
           | Inr False \<Rightarrow> Inr ''cpu''))"

text \<open>Lines 115 to 126: the bare \<open>except\<close> catches whatever the body raises.\<close>

definition select_device ::
  "bool \<Rightarrow> (error + bool) \<Rightarrow> (error + bool) \<Rightarrow> int \<Rightarrow> error + string" where
  "select_device force_cpu mps_is_available cuda_is_available dev_id =
     (if force_cpu then Inr ''cpu''
      else (case detect_device mps_is_available cuda_is_available dev_id of
              Inl e \<Rightarrow> Inr ''cpu''
            | Inr d \<Rightarrow> Inr d))"

text \<open>
  The constructor. \<open>load_model weights device bb_index fp16\<close> stands for lines 132
  to 141: \<open>load_file\<close> on the weight file, the construction of the network with its
  backbone index, \<open>load_state_dict\<close>, \<open>to(device)\<close>, \<open>eval\<close> and, for fp16,
  \<open>half\<close>. \<open>load_file\<close> raises when the weight file is missing.
\<close>

definition init ::
  "(error + bool) \<Rightarrow> (error + bool) \<Rightarrow> 'b fetcher \<Rightarrow> ('b \<Rightarrow> string \<Rightarrow> nat \<Rightarrow> bool \<Rightarrow> error + 'w)
     \<Rightarrow> string \<Rightarrow> string \<Rightarrow> int \<Rightarrow> bool \<Rightarrow> bool \<Rightarrow> 'b os_state
     \<Rightarrow> (error + 'w pipeline) \<times> 'b os_state" where
  "init mps_is_available cuda_is_available load_file_from_url load_model models_path
     name dev_id force_cpu fp16 st =
     (case select_device force_cpu mps_is_available cuda_is_available dev_id of
        Inl e \<Rightarrow> (Inl e, st)
      | Inr dev \<Rightarrow>
          (case download_birefnet_model load_file_from_url models_path name st of
             (Inl e, st1) \<Rightarrow> (Inl e, st1)
           | (Inr _, st1) \<Rightarrow>
               (let weight_path = get_model_path models_path name;
                    bb_index = (if sublist ''Lite'' name then 3 else 6)
                in case files st1 weight_path of
                     None \<Rightarrow> (Inl OtherError, st1)
                   | Some weights \<Rightarrow>
                       (case load_model weights dev bb_index fp16 of
                          Inl e \<Rightarrow> (Inl e, st1)
                        | Inr net \<Rightarrow>
                            (Inr \<lparr>model_name = name, device_id = dev_id,
                                  flag_force_cpu = force_cpu, use_fp16 = fp16,
                                  device = dev, birefnet = net\<rparr>, st1)))))"

section \<open>What the specification says of the edge mask\<close>

text \<open>
  The specification's edge mask, in its own words: the pixelwise XOR of the mask
  dilated and the mask eroded, both by the disc of the amount \<open>mask_width // 2\<close>.
  The disc of an amount is the set of offsets, on the grid of that many cells per
  axis around the cell \<open>amount // 2\<close>, that lie within that radius.
\<close>

definition disc :: "int \<Rightarrow> (int \<times> int) list" where
  "disc amount =
     (let n = \<bar>amount\<bar>; c = n div 2
      in concat (map (\<lambda>dy. concat (map (\<lambda>dx.
           if dy\<^sup>2 + dx\<^sup>2 \<le> c\<^sup>2 then [(dy, dx)] else []) [- c..n - 1 - c])) [- c..n - 1 - c]))"

definition dilated :: "uint8 image \<Rightarrow> (int \<times> int) list \<Rightarrow> nat \<Rightarrow> nat \<Rightarrow> bool" where
  "dilated mask_img element i j =
     (\<exists>(dy, dx) \<in> set element. foreground mask_img (int i - dy) (int j - dx))"

definition eroded :: "uint8 image \<Rightarrow> (int \<times> int) list \<Rightarrow> nat \<Rightarrow> nat \<Rightarrow> bool" where
  "eroded mask_img element i j =
     (\<forall>(dy, dx) \<in> set element. foreground mask_img (int i + dy) (int j + dx))"

definition edge_mask_spec :: "uint8 image \<Rightarrow> int \<Rightarrow> uint8 image" where
  "edge_mask_spec mask_img mask_width =
     map (\<lambda>i. map (\<lambda>j.
        if dilated mask_img (disc (mask_width div 2)) i j
           \<noteq> eroded mask_img (disc (mask_width div 2)) i j
        then 255 else 0) [0..<ncols mask_img]) [0..<nrows mask_img]"

definition binary_valued :: "uint8 image \<Rightarrow> bool" where
  "binary_valued img = (\<forall>row \<in> set img. \<forall>p \<in> set row. p = 0 \<or> p = 255)"

section \<open>An instance of the library operations\<close>

text \<open>
  The examples below run \<open>process\<close> on stand-ins for the library operations:
  resampling fills the input with 0 and a mask with 255, the transform, \<open>half\<close>
  and the network hand their argument on, \<open>to_pil_image\<close> gives a white image of
  one pixel, and \<open>refine_foreground\<close> returns the input image.
\<close>

definition example_api :: "(nat, nat image, unit) torch_api" where
  "example_api =
     \<lparr>resample_image = (\<lambda>img sz. Inr (\<lambda>r c. 0)),
      resample_mask = (\<lambda>img sz. Inr (\<lambda>r c. 255)),
      transform_image = (\<lambda>img. Inr img),
      half = (\<lambda>t. t),
      forward = (\<lambda>net dev t. Inr t),
      to_pil_image = (\<lambda>t. Inr [[255]]),
      refine_foreground = (\<lambda>img alpha. Inr img)\<rparr>"

text \<open>
  A second instance resamples for real, by nearest neighbour, and predicts from
  what it is given: the network hands the tensor on and \<open>to_pil_image\<close> is white
  where the tensor holds 7.
\<close>

definition nearest :: "'p resampler" where
  "nearest img sz =
     Inr (\<lambda>r c. img ! (r * nrows img div snd sz) ! (c * ncols img div fst sz))"

definition nearest_api :: "(nat, nat image, unit) torch_api" where
  "nearest_api =
     \<lparr>resample_image = nearest,
      resample_mask = nearest,
      transform_image = (\<lambda>img. Inr img),
      half = (\<lambda>t. t),
      forward = (\<lambda>net dev t. Inr t),
      to_pil_image = (\<lambda>t. Inr (map (map (\<lambda>p. if p = 7 then 255 else 0)) t)),
      refine_foreground = (\<lambda>img alpha. Inr img)\<rparr>"

definition example_pipeline :: "unit pipeline" where
  "example_pipeline =
     \<lparr>model_name = ''General'', device_id = 0, flag_force_cpu = True, use_fp16 = True,
      device = ''cpu'', birefnet = ()\<rparr>"

section \<open>The structuring element\<close>

lemma meshgrid_arange:
  "meshgrid (arange n) (arange n) =
     (map (\<lambda>_. map int [0..<nat n]) [0..<nat n],
      map (\<lambda>y. map (\<lambda>_. int y) [0..<nat n]) [0..<nat n])"
  by (simp add: meshgrid_def arange_def comp_def)

lemma structuring_element_rows:
  "structuring_element a =
     map (\<lambda>r. map (\<lambda>c.
        if (int c - \<bar>a\<bar> div 2)\<^sup>2 + (int r - \<bar>a\<bar> div 2)\<^sup>2 \<le> (\<bar>a\<bar> div 2)\<^sup>2 then 1 else 0)
        [0..<nat \<bar>a\<bar>]) [0..<nat \<bar>a\<bar>]"
proof -
  have inner: "map2 f (map int [0..<m]) (map (\<lambda>_. int r) [0..<m])
                 = map (\<lambda>c. f (int c) (int r)) [0..<m]"
    for f :: "int \<Rightarrow> int \<Rightarrow> uint8" and m r
    by (rule nth_equalityI) simp_all
  have outer: "map2 g (map (\<lambda>_. xs) [0..<m]) (map h [0..<m])
                 = map (\<lambda>r. g xs (h r)) [0..<m]"
    for g :: "int list \<Rightarrow> int list \<Rightarrow> uint8 list" and xs h m
    by (rule nth_equalityI) simp_all
  show ?thesis
    unfolding structuring_element_def Let_def meshgrid_arange dilation_kernel_def
    by (simp add: outer inner)
qed

lemma structuring_element_nth:
  assumes "i < nat \<bar>a\<bar>" and "j < nat \<bar>a\<bar>"
  shows "structuring_element a ! i ! j =
           (if (int j - \<bar>a\<bar> div 2)\<^sup>2 + (int i - \<bar>a\<bar> div 2)\<^sup>2 \<le> (\<bar>a\<bar> div 2)\<^sup>2
            then 1 else 0)"
  using assms by (simp add: structuring_element_rows)

lemma nrows_structuring_element: "nrows (structuring_element a) = nat \<bar>a\<bar>"
  by (simp add: nrows_def structuring_element_rows)

lemma ncols_structuring_element: "ncols (structuring_element a) = nat \<bar>a\<bar>"
proof (cases "nat \<bar>a\<bar>")
  case 0
  then show ?thesis by (simp add: ncols_def structuring_element_rows)
next
  case (Suc m)
  then show ?thesis
    by (simp add: ncols_def structuring_element_rows upt_conv_Cons del: upt_Suc)
qed

lemma dilate_mask_structuring_element:
  "dilate_mask mask_img a =
     (if a < 0 then binary_erosion mask_img (structuring_element a)
      else binary_dilation mask_img (structuring_element a))"
  by (simp add: dilate_mask_def structuring_element_def Let_def split: prod.splits)

lemma structuring_element_neg: "structuring_element (- a) = structuring_element a"
  by (simp add: structuring_element_rows)

lemma structuring_element_mirror:
  assumes "i < nat (abs a)" "j < nat (abs a)"
    and "2 * (nat (abs a) div 2) - i < nat (abs a)" "2 * (nat (abs a) div 2) - j < nat (abs a)"
  shows "structuring_element a ! i ! j =
         structuring_element a ! (2 * (nat (abs a) div 2) - i) ! (2 * (nat (abs a) div 2) - j)"
proof -
  let ?c = "(abs a) div 2"
  have c: "int (nat (abs a) div 2) = ?c" by (simp add: zdiv_int)
  have half: "k \<le> 2 * (n div 2)" if "k < n" for k n :: nat
    using that by presburger
  have le: "i \<le> 2 * (nat (abs a) div 2)" "j \<le> 2 * (nat (abs a) div 2)"
    using assms(1,2) by (simp_all add: half)
  have i: "int (2 * (nat (abs a) div 2) - i) - ?c = - (int i - ?c)"
    using le(1) c by (simp add: of_nat_diff)
  have j: "int (2 * (nat (abs a) div 2) - j) - ?c = - (int j - ?c)"
    using le(2) c by (simp add: of_nat_diff)
  show ?thesis
    unfolding structuring_element_nth[OF assms(1,2)] structuring_element_nth[OF assms(3,4)] i j
    by (simp add: power2_commute)
qed

lemma structuring_element_even_asymmetric:
  assumes "even a" and "a \<noteq> 0"
  shows "structuring_element a ! 0 ! (nat (abs a) div 2 - 1) = 0"
    and "structuring_element a ! (nat (abs a) - 1 - 0)
           ! (nat (abs a) - 1 - (nat (abs a) div 2 - 1)) = 1"
proof -
  define c where "c = nat (abs a) div 2"
  from assms have n: "nat (abs a) = 2 * c" and c: "1 \<le> c"
    unfolding c_def by (auto simp: even_nat_iff elim!: evenE)
  have ci: "abs a div 2 = int c"
    unfolding c_def by (simp add: zdiv_int)
  have lt: "0 < nat (abs a)" "c - 1 < nat (abs a)" "nat (abs a) - 1 - 0 < nat (abs a)"
    "nat (abs a) - 1 - (c - 1) < nat (abs a)"
    using n c by linarith+
  have col: "int (c - 1) - int c = - 1" using c by (simp add: of_nat_diff)
  have "(int (c - 1) - int c)\<^sup>2 + (int 0 - int c)\<^sup>2 = 1 + (int c)\<^sup>2"
    unfolding col by simp
  then have "\<not> (int (c - 1) - int c)\<^sup>2 + (int 0 - int c)\<^sup>2 \<le> (int c)\<^sup>2"
    by linarith
  then show "structuring_element a ! 0 ! (nat (abs a) div 2 - 1) = 0"
    unfolding c_def[symmetric] structuring_element_nth[OF lt(1,2)] ci by simp
  have idx: "nat (abs a) - 1 = 2 * c - 1" "2 * c - 1 - (c - 1) = c"
    using n c by linarith+
  have lt': "2 * c - 1 < nat (abs a)" "c < nat (abs a)"
    using n c by linarith+
  have row: "int (2 * c - 1) - int c = int c - 1" using c by (simp add: of_nat_diff)
  have "(int c - 1)\<^sup>2 \<le> (int c)\<^sup>2"
    using c by (simp add: power2_eq_square algebra_simps)
  then have le: "(int c - int c)\<^sup>2 + (int (2 * c - 1) - int c)\<^sup>2 \<le> (int c)\<^sup>2"
    unfolding row by simp
  have "structuring_element a ! (2 * c - 1) ! c = 1"
    unfolding structuring_element_nth[OF lt'] ci using le by (simp only: if_True)
  then show "structuring_element a ! (nat (abs a) - 1 - 0)
           ! (nat (abs a) - 1 - (nat (abs a) div 2 - 1)) = 1"
    by (simp only: c_def[symmetric] diff_zero idx)
qed

section \<open>Claims\<close>

subsection \<open>C6: the symmetry of the structuring element\<close>

text \<open>
  C6, as the code has it. The kernel that \<open>dilate_mask\<close> builds for an amount is
  the kernel it builds for the negated amount. It is invariant under the point
  reflection about the cell \<open>(center, center)\<close>, \<open>center = |amt| // 2\<close>, wherever
  the mirrored cell lies on the grid; when \<open>|amt|\<close> is odd that cell is the middle
  of the grid and the reflection is \<open>kernel[i][j] = kernel[n-1-i][n-1-j]\<close> for
  every \<open>i\<close> and \<open>j\<close>. When \<open>|amt|\<close> is even and not 0 the grid has no middle
  cell and that identity fails: \<open>kernel[0][center-1]\<close> is 0, and the cell opposite
  to it in the grid, \<open>kernel[n-1][n-center]\<close>, is 1.
\<close>

theorem structuring_element_symmetry:
  "structuring_element (- a) = structuring_element a
   \<and> (\<forall>i j. i < nat (abs a) \<and> j < nat (abs a)
          \<and> 2 * (nat (abs a) div 2) - i < nat (abs a) \<and> 2 * (nat (abs a) div 2) - j < nat (abs a)
        \<longrightarrow> structuring_element a ! i ! j
            = structuring_element a ! (2 * (nat (abs a) div 2) - i) ! (2 * (nat (abs a) div 2) - j))
   \<and> (odd a \<longrightarrow> (\<forall>i j. i < nat (abs a) \<and> j < nat (abs a)
        \<longrightarrow> structuring_element a ! i ! j
            = structuring_element a ! (nat (abs a) - 1 - i) ! (nat (abs a) - 1 - j)))
   \<and> (even a \<and> a \<noteq> 0 \<longrightarrow>
          0 < nat (abs a) \<and> nat (abs a) div 2 - 1 < nat (abs a)
        \<and> structuring_element a ! 0 ! (nat (abs a) div 2 - 1) = 0
        \<and> structuring_element a ! (nat (abs a) - 1 - 0)
             ! (nat (abs a) - 1 - (nat (abs a) div 2 - 1)) = 1)"
proof (intro conjI allI impI)
  show "structuring_element (- a) = structuring_element a"
    by (rule structuring_element_neg)
next
  fix i j
  assume "i < nat (abs a) \<and> j < nat (abs a)
          \<and> 2 * (nat (abs a) div 2) - i < nat (abs a) \<and> 2 * (nat (abs a) div 2) - j < nat (abs a)"
  then show "structuring_element a ! i ! j
            = structuring_element a ! (2 * (nat (abs a) div 2) - i) ! (2 * (nat (abs a) div 2) - j)"
    by (simp add: structuring_element_mirror)
next
  fix i j
  assume odd: "odd a" and ij: "i < nat (abs a) \<and> j < nat (abs a)"
  from odd have "odd (nat (abs a))" by (simp add: even_nat_iff)
  moreover have "2 * (n div 2) = n - 1" if "odd n" for n :: nat
    using that by presburger
  ultimately have n: "2 * (nat (abs a) div 2) = nat (abs a) - 1"
    by blast
  have "nat (abs a) - 1 - i < nat (abs a)" "nat (abs a) - 1 - j < nat (abs a)"
    using ij by linarith+
  then show "structuring_element a ! i ! j
            = structuring_element a ! (nat (abs a) - 1 - i) ! (nat (abs a) - 1 - j)"
    using structuring_element_mirror[of i a j] ij n by simp
next
  assume "even a \<and> a \<noteq> 0"
  then show "0 < nat (abs a)" and "nat (abs a) div 2 - 1 < nat (abs a)"
    by linarith+
next
  assume "even a \<and> a \<noteq> 0"
  then have "even a" and "a \<noteq> 0" by simp_all
  then show "structuring_element a ! 0 ! (nat (abs a) div 2 - 1) = 0"
    by (rule structuring_element_even_asymmetric(1))
next
  assume "even a \<and> a \<noteq> 0"
  then have "even a" and "a \<noteq> 0" by simp_all
  then show "structuring_element a ! (nat (abs a) - 1 - 0)
             ! (nat (abs a) - 1 - (nat (abs a) div 2 - 1)) = 1"
    by (rule structuring_element_even_asymmetric(2))
qed

text \<open>The parts at the odd amount 3, and the last part at the even amount 4.\<close>

theorem structuring_element_symmetry_witness:
  "odd (3::int) \<and> structuring_element (- 3) = structuring_element 3
   \<and> structuring_element 3 ! 0 ! 1 = structuring_element 3 ! 2 ! 1
   \<and> even (4::int) \<and> (4::int) \<noteq> 0
   \<and> structuring_element 4 ! 0 ! 1 = 0 \<and> structuring_element 4 ! 3 ! 2 = 1"
proof -
  have odd3: "odd (3::int)" by simp
  have neg: "structuring_element (- 3) = structuring_element 3"
    using structuring_element_symmetry[of 3] by (rule conjunct1)
  have "\<forall>i j. i < nat (abs 3) \<and> j < nat (abs 3) \<longrightarrow>
          structuring_element 3 ! i ! j
            = structuring_element 3 ! (nat (abs 3) - 1 - i) ! (nat (abs 3) - 1 - j)"
    using structuring_element_symmetry[of 3] odd3 by blast
  from this[rule_format, of 0 1]
  have mirror: "structuring_element 3 ! 0 ! 1 = structuring_element 3 ! 2 ! 1" by simp
  have even4: "even (4::int) \<and> (4::int) \<noteq> 0" by simp
  have idx: "nat (abs (4::int)) div 2 - 1 = 1" "nat (abs (4::int)) - 1 - 0 = 3"
    "nat (abs (4::int)) - 1 - 1 = 2"
    by simp_all
  from structuring_element_symmetry[of 4, THEN conjunct2, THEN conjunct2, THEN conjunct2,
         rule_format, OF even4]
  have "structuring_element 4 ! 0 ! 1 = 0 \<and> structuring_element 4 ! 3 ! 2 = 1"
    unfolding idx by (rule conjunct2[THEN conjunct2])
  with odd3 neg mirror even4 show ?thesis by blast
qed

text \<open>
  C6 as stated fails for an even amount: the grid of the amount 2 has no middle
  cell, the disc is centred on the cell \<open>(1, 1)\<close>, and the corner \<open>kernel[0][0]\<close>
  is outside it while its mirror image \<open>kernel[1][1]\<close> is the centre.
\<close>

theorem structuring_element_even_counterexample:
  "structuring_element 2 = [[0, 1], [1, 1]]
   \<and> structuring_element 2 ! 0 ! 0 \<noteq> structuring_element 2 ! (2 - 1 - 0) ! (2 - 1 - 0)"
  by (simp add: structuring_element_rows upt_conv_Cons)

subsection \<open>C8: every admitted model name is registered\<close>

lemma registry_keys: "map fst usage_to_weights_file = BiRefNetModelName"
  by (simp add: usage_to_weights_file_def BiRefNetModelName_def)

lemma registry_lookup:
  assumes "name \<in> set BiRefNetModelName"
  shows "\<exists>weights_file. map_of usage_to_weights_file name = Some weights_file"
proof -
  from assms have "name \<in> fst ` set usage_to_weights_file"
    by (simp add: registry_keys[symmetric])
  then have "map_of usage_to_weights_file name \<noteq> None"
    by (simp add: map_of_eq_None_iff)
  then show ?thesis by blast
qed

text \<open>
  C8. Every model name that \<open>BiRefNetModelName\<close> admits is a key of
  \<open>usage_to_weights_file\<close>: for such a name \<open>download_birefnet_model\<close> finds the
  weights file, builds the URL and goes on to \<open>download_models\<close>, so the lookup
  never raises \<open>KeyError\<close>.
\<close>

theorem model_names_registered:
  assumes "name \<in> set BiRefNetModelName"
  shows "\<exists>weights_file.
           map_of usage_to_weights_file name = Some weights_file
         \<and> download_birefnet_model load_file_from_url models_path name st
             = download_models load_file_from_url (os_path_join models_path ''birefnet'')
                 [(name @ ''.safetensors'',
                   ''https://huggingface.co/ZhengPeng7/'' @ weights_file
                     @ ''/resolve/main/model.safetensors'')] st"
proof -
  from registry_lookup[OF assms] obtain weights_file
    where w: "map_of usage_to_weights_file name = Some weights_file" by blast
  then show ?thesis
    by (simp add: download_birefnet_model_def)
qed

text \<open>The name \<open>General\<close> is admitted, and its weights file is \<open>BiRefNet\<close>.\<close>

theorem model_names_registered_witness:
  "''General'' \<in> set BiRefNetModelName
   \<and> map_of usage_to_weights_file ''General'' = Some ''BiRefNet''"
proof -
  have mem: "''General'' \<in> set BiRefNetModelName"
    by (simp add: BiRefNetModelName_def)
  from model_names_registered[OF mem]
  obtain weights_file where "map_of usage_to_weights_file ''General'' = Some weights_file"
    by blast
  moreover have "map_of usage_to_weights_file ''General'' = Some ''BiRefNet''"
    by (simp add: usage_to_weights_file_def)
  ultimately show ?thesis using mem by simp
qed

subsection \<open>C4: the selection of the device\<close>

lemma detect_device_raises:
  "detect_device mps_is_available cuda_is_available dev_id = Inl e
     \<longleftrightarrow> mps_is_available = Inl e
         \<or> (mps_is_available = Inr False \<and> cuda_is_available = Inl e)"
  by (auto simp: detect_device_def split: sum.splits bool.splits)

lemma init_device:
  assumes "init mps_is_available cuda_is_available load_file_from_url load_model models_path
             name dev_id force_cpu fp16 st = (Inr p, st')"
  shows "select_device force_cpu mps_is_available cuda_is_available dev_id = Inr (device p)"
  using assms
  by (auto simp: init_def Let_def split: sum.splits prod.splits option.splits)

text \<open>
  C4. The selection of the device always yields a device and never an exception.
  With \<open>flag_force_cpu\<close> the device is \<open>cpu\<close>. Without it, when the detection
  raises (the first query raises, or it returns false and the second raises), the
  exception is caught and the device is \<open>cpu\<close>. The device of a pipeline that
  the constructor returns is the selected one.
\<close>

theorem device_selection:
  "(\<exists>d. select_device force_cpu mps_is_available cuda_is_available dev_id = Inr d)
   \<and> (force_cpu \<longrightarrow>
        select_device force_cpu mps_is_available cuda_is_available dev_id = Inr ''cpu'')
   \<and> (\<not> force_cpu
        \<and> (mps_is_available = Inl e
            \<or> (mps_is_available = Inr False \<and> cuda_is_available = Inl e)) \<longrightarrow>
        detect_device mps_is_available cuda_is_available dev_id = Inl e
        \<and> select_device force_cpu mps_is_available cuda_is_available dev_id = Inr ''cpu'')
   \<and> (init mps_is_available cuda_is_available load_file_from_url load_model models_path
         name dev_id force_cpu fp16 st = (Inr p, st') \<longrightarrow>
        select_device force_cpu mps_is_available cuda_is_available dev_id = Inr (device p))"
proof (intro conjI impI)
  show "\<exists>d. select_device force_cpu mps_is_available cuda_is_available dev_id = Inr d"
    by (simp add: select_device_def split: sum.splits)
next
  assume force_cpu
  then show "select_device force_cpu mps_is_available cuda_is_available dev_id = Inr ''cpu''"
    by (simp add: select_device_def)
next
  assume a: "\<not> force_cpu
        \<and> (mps_is_available = Inl e
            \<or> (mps_is_available = Inr False \<and> cuda_is_available = Inl e))"
  then show "detect_device mps_is_available cuda_is_available dev_id = Inl e"
    by (simp add: detect_device_raises)
  with a show "select_device force_cpu mps_is_available cuda_is_available dev_id = Inr ''cpu''"
    by (simp add: select_device_def)
next
  assume "init mps_is_available cuda_is_available load_file_from_url load_model models_path
         name dev_id force_cpu fp16 st = (Inr p, st')"
  then show "select_device force_cpu mps_is_available cuda_is_available dev_id = Inr (device p)"
    by (rule init_device)
qed

lemma init_example:
  "init (Inr False) (Inl OtherError) (\<lambda>url model_dir file_name fs. Inl OtherError)
        (\<lambda>weights dev bb_index fp16. Inr bb_index) ''models'' ''General'' 0 False True
        \<lparr>files = [''models/birefnet/General.safetensors'' \<mapsto> (0::nat)],
         dirs = {''models/birefnet''}, refused = Map.empty, requests = []\<rparr>
   = (Inr \<lparr>model_name = ''General'', device_id = 0, flag_force_cpu = False, use_fp16 = True,
           device = ''cpu'', birefnet = 6\<rparr>,
      \<lparr>files = [''models/birefnet/General.safetensors'' \<mapsto> (0::nat)],
         dirs = {''models/birefnet''}, refused = Map.empty, requests = []\<rparr>)"
  by (simp add: init_def select_device_def detect_device_def download_birefnet_model_def
        usage_to_weights_file_def download_models_def path_exists_def os_path_join_def
        get_model_path_def Let_def sublist_code)

text \<open>The forced case, the two ways the detection can raise, and a pipeline
  constructed while the second query raises.\<close>

theorem device_selection_witness:
  "select_device True (Inr True) (Inr True) 0 = Inr ''cpu''
   \<and> detect_device (Inl OtherError) (Inr True) 0 = Inl OtherError
   \<and> select_device False (Inl OtherError) (Inr True) 0 = Inr ''cpu''
   \<and> detect_device (Inr False) (Inl OtherError) 0 = Inl OtherError
   \<and> select_device False (Inr False) (Inl OtherError) 0 = Inr ''cpu''
   \<and> select_device False (Inr False) (Inl OtherError) 0
       = Inr (device \<lparr>model_name = ''General'', device_id = 0, flag_force_cpu = False,
                      use_fp16 = True, device = ''cpu'', birefnet = (6::nat)\<rparr>)"
proof -
  have "select_device True (Inr True) (Inr True) 0 = Inr ''cpu''"
    using device_selection[of True "Inr True" "Inr True" 0] by blast
  moreover have "detect_device (Inl OtherError) (Inr True) 0 = Inl OtherError
      \<and> select_device False (Inl OtherError) (Inr True) 0 = Inr ''cpu''"
    using device_selection[of False "Inl OtherError" "Inr True" 0 OtherError] by blast
  moreover have "detect_device (Inr False) (Inl OtherError) 0 = Inl OtherError
      \<and> select_device False (Inr False) (Inl OtherError) 0 = Inr ''cpu''"
    using device_selection[of False "Inr False" "Inl OtherError" 0 OtherError] by blast
  moreover have "select_device False (Inr False) (Inl OtherError) 0
       = Inr (device \<lparr>model_name = ''General'', device_id = 0, flag_force_cpu = False,
                      use_fp16 = True, device = ''cpu'', birefnet = (6::nat)\<rparr>)"
    using device_selection[of False "Inr False" "Inl OtherError" 0 _
            "\<lambda>url model_dir file_name fs. Inl OtherError"
            "\<lambda>weights dev bb_index fp16. Inr bb_index" "''models''" "''General''" True
            "\<lparr>files = [''models/birefnet/General.safetensors'' \<mapsto> (0::nat)],
              dirs = {''models/birefnet''}, refused = Map.empty, requests = []\<rparr>"] init_example
    by blast
  ultimately show ?thesis by blast
qed

subsection \<open>C5: the weights are downloaded only when the file is missing\<close>

lemma registered_name_shape:
  assumes "map_of usage_to_weights_file name = Some weights_file"
  shows "name \<noteq> []" and "hd name \<noteq> CHR ''/''"
  using assms by (auto simp: usage_to_weights_file_def split: if_splits)

lemma model_root_shape:
  "os_path_join models_path ''birefnet'' \<noteq> []"
  "last (os_path_join models_path ''birefnet'') = CHR ''t''"
  by (simp_all add: os_path_join_def)

lemma weight_path_below_root:
  assumes "name \<noteq> []" and "hd name \<noteq> CHR ''/''"
  shows "get_model_path models_path name
           = os_path_join models_path ''birefnet'' @ ''/'' @ name @ ''.safetensors''"
proof -
  have "hd (name @ ''.safetensors'') \<noteq> CHR ''/''"
    using assms by simp
  moreover have "last (os_path_join models_path ''birefnet'') \<noteq> CHR ''/''"
    by (simp add: model_root_shape)
  ultimately show ?thesis
    unfolding get_model_path_def
    by (subst os_path_join_def) (simp add: model_root_shape)
qed

lemma ancestors_shorter:
  assumes "p \<in> set (ancestors path)"
  shows "length p < length path"
  using assms by (auto simp: ancestors_def)

lemma weight_path_not_made:
  assumes "name \<noteq> []" and "hd name \<noteq> CHR ''/''"
  shows "get_model_path models_path name
           \<notin> set (ancestors (os_path_join models_path ''birefnet''))
               \<union> {os_path_join models_path ''birefnet''}"
proof
  assume "get_model_path models_path name
           \<in> set (ancestors (os_path_join models_path ''birefnet''))
               \<union> {os_path_join models_path ''birefnet''}"
  then have "length (get_model_path models_path name)
               \<le> length (os_path_join models_path ''birefnet'')"
    using ancestors_shorter[of "get_model_path models_path name"
            "os_path_join models_path ''birefnet''"]
    by auto
  then show False
    by (simp add: weight_path_below_root[OF assms])
qed

lemma makedirs_made:
  assumes "makedirs path st = Inr st1"
  shows "st1 = st\<lparr>dirs := dirs st \<union> set (ancestors path) \<union> {path}\<rparr>"
  using assms by (simp add: makedirs_def split: if_splits option.splits)

text \<open>The state in which the loop of \<open>download_models\<close> starts: the given one when
  the directory exists, the one \<open>os.makedirs\<close> leaves otherwise.\<close>

lemma download_models_present:
  assumes "path_exists st (os_path_join model_root local_file)"
    and "(path_exists st model_root \<and> st1 = st)
         \<or> (\<not> path_exists st model_root \<and> makedirs model_root st = Inr st1)"
  shows "download_models load_file_from_url model_root [(local_file, url)] st = (Inr (), st1)"
proof -
  from assms(2) have "path_exists st1 (os_path_join model_root local_file)"
    using assms(1) by (auto dest!: makedirs_made simp: path_exists_def)
  with assms(2) show ?thesis
    by (auto simp: download_models_def)
qed

lemma download_models_refused:
  assumes "\<not> path_exists st model_root" and "makedirs model_root st = Inl e"
  shows "download_models load_file_from_url model_root model_urls st = (Inl e, st)"
  using assms by (simp add: download_models_def)

lemma download_models_missing:
  assumes "\<not> path_exists st1 (os_path_join model_root local_file)"
    and "(path_exists st model_root \<and> st1 = st)
         \<or> (\<not> path_exists st model_root \<and> makedirs model_root st = Inr st1)"
  shows "download_models load_file_from_url model_root [(local_file, url)] st
           = (case load_file_from_url url model_root local_file (files st1, dirs st1) of
                Inl e \<Rightarrow> (Inl e, st1\<lparr>requests := requests st1 @ [(url, model_root, local_file)]\<rparr>)
              | Inr (fs, ds) \<Rightarrow>
                  (Inr (), st1\<lparr>requests := requests st1 @ [(url, model_root, local_file)],
                               files := fs, dirs := ds\<rparr>))"
proof -
  from assms(2) have "download_models load_file_from_url model_root [(local_file, url)] st
          = download_each load_file_from_url model_root [(local_file, url)] st1"
    by (auto simp: download_models_def)
  then show ?thesis
    using assms(1) by (simp add: Let_def split: sum.splits prod.splits)
qed

lemma still_missing:
  assumes "map_of usage_to_weights_file name = Some weights_file"
    and "\<not> path_exists st (get_model_path models_path name)"
    and "(path_exists st (os_path_join models_path ''birefnet'') \<and> st1 = st)
         \<or> (\<not> path_exists st (os_path_join models_path ''birefnet'')
            \<and> makedirs (os_path_join models_path ''birefnet'') st = Inr st1)"
  shows "\<not> path_exists st1 (get_model_path models_path name)"
    and "requests st1 = requests st"
proof -
  note shape = registered_name_shape[OF assms(1)]
  from assms(3) show "\<not> path_exists st1 (get_model_path models_path name)"
    using assms(2) weight_path_not_made[OF shape, of models_path]
    by (auto dest!: makedirs_made simp: path_exists_def)
  from assms(3) show "requests st1 = requests st"
    by (auto dest!: makedirs_made)
qed

text \<open>
  C5. For a registered model name the weight file is \<open>{model_name}.safetensors\<close>
  in the directory \<open>birefnet\<close> of the models directory, which is the path that
  \<open>get_model_path\<close> gives.

  When that file exists, \<open>download_birefnet_model\<close> does not call
  \<open>load_file_from_url\<close> and leaves every file as it was; with the directory in
  place (as it is for a file that exists) it returns and nothing at all has
  changed.

  When the file does not exist, the directory is made first if it is missing, and
  an exception of \<open>os.makedirs\<close> ends the call with nothing downloaded. Otherwise
  \<open>load_file_from_url\<close> is called exactly once, with the URL of the registered
  weights, that directory as \<open>model_dir\<close> and that file name as \<open>file_name\<close>: the
  files and directories it leaves are those of the result, and an exception it
  raises is raised by \<open>download_birefnet_model\<close>.
\<close>

theorem download_only_when_missing:
  assumes "map_of usage_to_weights_file name = Some weights_file"
  shows "let weight_path = get_model_path models_path name;
             model_root = os_path_join models_path ''birefnet'';
             file_name = name @ ''.safetensors'';
             url = ''https://huggingface.co/ZhengPeng7/'' @ weights_file
                     @ ''/resolve/main/model.safetensors'';
             result = download_birefnet_model load_file_from_url models_path name st
         in (path_exists st weight_path \<longrightarrow>
               requests (snd result) = requests st \<and> files (snd result) = files st)
          \<and> (path_exists st weight_path \<and> path_exists st model_root \<longrightarrow>
               result = (Inr (), st))
          \<and> (\<forall>e. \<not> path_exists st weight_path \<and> \<not> path_exists st model_root
                   \<and> makedirs model_root st = Inl e \<longrightarrow>
               result = (Inl e, st))
          \<and> (\<forall>st1 fs ds.
                \<not> path_exists st weight_path
                \<and> ((path_exists st model_root \<and> st1 = st)
                    \<or> (\<not> path_exists st model_root \<and> makedirs model_root st = Inr st1))
                \<and> load_file_from_url url model_root file_name (files st1, dirs st1)
                    = Inr (fs, ds) \<longrightarrow>
               result = (Inr (), st1\<lparr>files := fs, dirs := ds,
                                     requests := requests st @ [(url, model_root, file_name)]\<rparr>))
          \<and> (\<forall>st1 e.
                \<not> path_exists st weight_path
                \<and> ((path_exists st model_root \<and> st1 = st)
                    \<or> (\<not> path_exists st model_root \<and> makedirs model_root st = Inr st1))
                \<and> load_file_from_url url model_root file_name (files st1, dirs st1) = Inl e \<longrightarrow>
               result = (Inl e, st1\<lparr>requests := requests st @ [(url, model_root, file_name)]\<rparr>))"
proof -
  let ?path = "get_model_path models_path name"
  let ?root = "os_path_join models_path ''birefnet''"
  let ?file = "name @ ''.safetensors''"
  let ?url = "''https://huggingface.co/ZhengPeng7/'' @ weights_file
                     @ ''/resolve/main/model.safetensors''"
  let ?result = "download_birefnet_model load_file_from_url models_path name st"
  have run: "?result = download_models load_file_from_url ?root [(?file, ?url)] st"
    using assms by (simp add: download_birefnet_model_def)
  have path: "?path = os_path_join ?root ?file"
    by (simp add: get_model_path_def)
  have p1: "requests (snd ?result) = requests st \<and> files (snd ?result) = files st"
    if present: "path_exists st ?path"
  proof (cases "path_exists st ?root")
    case True
    with present show ?thesis
      unfolding run path by (simp add: download_models_present[where ?st1.0 = st])
  next
    case False
    show ?thesis
    proof (cases "makedirs ?root st")
      case (Inl e)
      with False show ?thesis
        unfolding run by (simp add: download_models_refused)
    next
      case (Inr st1)
      with False present have "?result = (Inr (), st1)"
        unfolding run path by (simp add: download_models_present[where ?st1.0 = st1])
      with makedirs_made[OF Inr] show ?thesis by simp
    qed
  qed
  have p2: "?result = (Inr (), st)"
    if "path_exists st ?path \<and> path_exists st ?root"
    using that unfolding run path by (simp add: download_models_present[where ?st1.0 = st])
  have m0: "?result = (Inl e, st)"
    if "\<not> path_exists st ?path \<and> \<not> path_exists st ?root \<and> makedirs ?root st = Inl e" for e
    using that unfolding run by (simp add: download_models_refused)
  have step: "?result
      = (case load_file_from_url ?url ?root ?file (files st1, dirs st1) of
           Inl e \<Rightarrow> (Inl e, st1\<lparr>requests := requests st @ [(?url, ?root, ?file)]\<rparr>)
         | Inr (fs, ds) \<Rightarrow>
             (Inr (), st1\<lparr>requests := requests st @ [(?url, ?root, ?file)],
                          files := fs, dirs := ds\<rparr>))"
    if missing: "\<not> path_exists st ?path"
    and ready: "(path_exists st ?root \<and> st1 = st)
                \<or> (\<not> path_exists st ?root \<and> makedirs ?root st = Inr st1)" for st1
  proof -
    note s = still_missing[OF assms missing ready]
    from s(1) have "\<not> path_exists st1 (os_path_join ?root ?file)"
      unfolding path .
    from download_models_missing[OF this ready, of load_file_from_url ?url]
    show ?thesis
      unfolding run s(2) .
  qed
  have m1: "?result = (Inr (), st1\<lparr>files := fs, dirs := ds,
                                     requests := requests st @ [(?url, ?root, ?file)]\<rparr>)"
    if "\<not> path_exists st ?path
        \<and> ((path_exists st ?root \<and> st1 = st)
            \<or> (\<not> path_exists st ?root \<and> makedirs ?root st = Inr st1))
        \<and> load_file_from_url ?url ?root ?file (files st1, dirs st1) = Inr (fs, ds)"
    for st1 fs ds
    using that step[of st1] by simp
  have m2: "?result = (Inl e, st1\<lparr>requests := requests st @ [(?url, ?root, ?file)]\<rparr>)"
    if "\<not> path_exists st ?path
        \<and> ((path_exists st ?root \<and> st1 = st)
            \<or> (\<not> path_exists st ?root \<and> makedirs ?root st = Inr st1))
        \<and> load_file_from_url ?url ?root ?file (files st1, dirs st1) = Inl e"
    for st1 e
    using that step[of st1] by simp
  show ?thesis
    unfolding Let_def using p1 p2 m0 m1 m2 by blast
qed

lemma ancestors_example: "ancestors ''models/birefnet'' = [''models'']"
  by code_simp

text \<open>A weight file that is there; an empty file system, where the directories are
  made and the file is fetched; a download that fails; and a models directory
  that is a regular file.\<close>

theorem download_only_when_missing_witness:
  "map_of usage_to_weights_file ''General'' = Some ''BiRefNet''
   \<and> get_model_path ''models'' ''General'' = ''models/birefnet/General.safetensors''
   \<and> download_birefnet_model
         (\<lambda>url model_dir file_name (fs, ds). Inr (fs(os_path_join model_dir file_name \<mapsto> url), ds))
         ''models'' ''General''
         \<lparr>files = [''models/birefnet/General.safetensors'' \<mapsto> ''old''],
          dirs = {''models'', ''models/birefnet''}, refused = Map.empty, requests = []\<rparr>
       = (Inr (),
          \<lparr>files = [''models/birefnet/General.safetensors'' \<mapsto> ''old''],
           dirs = {''models'', ''models/birefnet''}, refused = Map.empty, requests = []\<rparr>)
   \<and> download_birefnet_model
         (\<lambda>url model_dir file_name (fs, ds). Inr (fs(os_path_join model_dir file_name \<mapsto> url), ds))
         ''models'' ''General''
         \<lparr>files = Map.empty, dirs = {}, refused = Map.empty, requests = []\<rparr>
       = (Inr (),
          \<lparr>files = [''models/birefnet/General.safetensors''
                      \<mapsto> ''https://huggingface.co/ZhengPeng7/BiRefNet/resolve/main/model.safetensors''],
           dirs = {''models'', ''models/birefnet''}, refused = Map.empty,
           requests = [(''https://huggingface.co/ZhengPeng7/BiRefNet/resolve/main/model.safetensors'',
                        ''models/birefnet'', ''General.safetensors'')]\<rparr>)
   \<and> download_birefnet_model
         (\<lambda>url model_dir file_name (fs, ds). Inl OtherError)
         ''models'' ''General''
         \<lparr>files = (Map.empty :: string \<rightharpoonup> string), dirs = {''models'', ''models/birefnet''},
          refused = Map.empty, requests = []\<rparr>
       = (Inl OtherError,
          \<lparr>files = Map.empty, dirs = {''models'', ''models/birefnet''}, refused = Map.empty,
           requests = [(''https://huggingface.co/ZhengPeng7/BiRefNet/resolve/main/model.safetensors'',
                        ''models/birefnet'', ''General.safetensors'')]\<rparr>)
   \<and> download_birefnet_model
         (\<lambda>url model_dir file_name (fs, ds). Inr (fs(os_path_join model_dir file_name \<mapsto> url), ds))
         ''models'' ''General''
         \<lparr>files = [''models'' \<mapsto> ''a regular file''], dirs = {}, refused = Map.empty,
          requests = []\<rparr>
       = (Inl NotADirectoryError,
          \<lparr>files = [''models'' \<mapsto> ''a regular file''], dirs = {}, refused = Map.empty,
           requests = []\<rparr>)"
proof -
  let ?store = "\<lambda>url model_dir file_name (fs, ds).
                  Inr (fs(os_path_join model_dir file_name \<mapsto> url), ds)"
  let ?fail = "\<lambda>url model_dir file_name (fs :: string \<rightharpoonup> string, ds :: string set).
                  (Inl OtherError :: error + (string \<rightharpoonup> string) \<times> string set)"
  let ?url = "''https://huggingface.co/ZhengPeng7/BiRefNet/resolve/main/model.safetensors''"
  let ?present = "\<lparr>files = [''models/birefnet/General.safetensors'' \<mapsto> ''old''],
                   dirs = {''models'', ''models/birefnet''}, refused = Map.empty,
                   requests = []\<rparr>"
  let ?empty = "\<lparr>files = (Map.empty :: string \<rightharpoonup> string), dirs = {},
                 refused = Map.empty, requests = []\<rparr>"
  let ?made = "\<lparr>files = (Map.empty :: string \<rightharpoonup> string),
                dirs = {''models'', ''models/birefnet''}, refused = Map.empty,
                requests = []\<rparr>"
  let ?blocked = "\<lparr>files = [''models'' \<mapsto> ''a regular file''], dirs = {},
                   refused = Map.empty, requests = []\<rparr>"
  have lookup: "map_of usage_to_weights_file ''General'' = Some ''BiRefNet''"
    by (simp add: usage_to_weights_file_def)
  have path: "get_model_path ''models'' ''General'' = ''models/birefnet/General.safetensors''"
    by (simp add: get_model_path_def os_path_join_def)
  have root: "os_path_join ''models'' ''birefnet'' = ''models/birefnet''"
    by (simp add: os_path_join_def)
  have url: "''https://huggingface.co/ZhengPeng7/'' @ ''BiRefNet''
               @ ''/resolve/main/model.safetensors'' = ?url"
    by simp
  have fname: "''General'' @ ''.safetensors'' = ''General.safetensors''"
    by simp
  note t = download_only_when_missing[OF lookup, where models_path = "''models''",
             unfolded Let_def path root url fname]
  have present: "download_birefnet_model ?store ''models'' ''General'' ?present
                   = (Inr (), ?present)"
  proof -
    have "path_exists ?present ''models/birefnet/General.safetensors''
        \<and> path_exists ?present ''models/birefnet''"
      by (simp add: path_exists_def)
    from t[where st = ?present and load_file_from_url = ?store,
           THEN conjunct2, THEN conjunct1, rule_format, OF this]
    show ?thesis .
  qed
  have made: "makedirs ''models/birefnet'' ?empty = Inr ?made"
    by (simp add: makedirs_def ancestors_example insert_commute)
  have missing: "download_birefnet_model ?store ''models'' ''General'' ?empty
      = (Inr (), ?made\<lparr>files := [''models/birefnet/General.safetensors'' \<mapsto> ?url],
                        dirs := {''models'', ''models/birefnet''},
                        requests := requests ?empty @ [(?url, ''models/birefnet'', ''General.safetensors'')]\<rparr>)"
  proof -
    have "\<not> path_exists ?empty ''models/birefnet/General.safetensors''
        \<and> ((path_exists ?empty ''models/birefnet'' \<and> ?made = ?empty)
            \<or> (\<not> path_exists ?empty ''models/birefnet''
               \<and> makedirs ''models/birefnet'' ?empty = Inr ?made))
        \<and> ?store ?url ''models/birefnet'' ''General.safetensors'' (files ?made, dirs ?made)
            = Inr ([''models/birefnet/General.safetensors'' \<mapsto> ?url],
                   {''models'', ''models/birefnet''})"
      using made by (simp add: path_exists_def os_path_join_def)
    from t[where st = ?empty and load_file_from_url = ?store,
           THEN conjunct2, THEN conjunct2, THEN conjunct2, THEN conjunct1, rule_format,
           OF this]
    show ?thesis .
  qed
  have failed: "download_birefnet_model ?fail ''models'' ''General'' ?made
      = (Inl OtherError,
         ?made\<lparr>requests := requests ?made @ [(?url, ''models/birefnet'', ''General.safetensors'')]\<rparr>)"
  proof -
    have "\<not> path_exists ?made ''models/birefnet/General.safetensors''
        \<and> ((path_exists ?made ''models/birefnet'' \<and> ?made = ?made)
            \<or> (\<not> path_exists ?made ''models/birefnet''
               \<and> makedirs ''models/birefnet'' ?made = Inr ?made))
        \<and> ?fail ?url ''models/birefnet'' ''General.safetensors'' (files ?made, dirs ?made)
            = Inl OtherError"
      by (simp add: path_exists_def)
    from t[where st = ?made and load_file_from_url = ?fail,
           THEN conjunct2, THEN conjunct2, THEN conjunct2, THEN conjunct2, rule_format,
           OF this]
    show ?thesis .
  qed
  have blocked: "download_birefnet_model ?store ''models'' ''General'' ?blocked
      = (Inl NotADirectoryError, ?blocked)"
  proof -
    have "\<not> path_exists ?blocked ''models/birefnet/General.safetensors''
        \<and> \<not> path_exists ?blocked ''models/birefnet''
        \<and> makedirs ''models/birefnet'' ?blocked = Inl NotADirectoryError"
      by (simp add: path_exists_def makedirs_def ancestors_example)
    from t[where st = ?blocked and load_file_from_url = ?store,
           THEN conjunct2, THEN conjunct2, THEN conjunct1, rule_format, OF this]
    show ?thesis .
  qed
  from lookup path present missing failed blocked show ?thesis
    by simp
qed

subsection \<open>C3: the edge mask is dilation XOR erosion\<close>

text \<open>The true cells of the kernel, read as offsets from its centre, are the disc.\<close>

lemma array_size_structuring_element:
  "array_size (structuring_element a) = nat (abs a) * nat (abs a)"
  by (simp add: array_size_def structuring_element_rows comp_def sum_list_triv)

lemma map2_same_index:
  "map2 f (map g xs) (map h xs) = map (\<lambda>x. f (g x) (h x)) xs"
  by (induction xs) simp_all

lemma structure_offsets_structuring_element:
  "set (structure_offsets (structuring_element a)) = set (disc a)"
proof -
  define n where "n = nat (abs a)"
  define c where "c = abs a div 2"
  have n: "abs a = int n" by (simp add: n_def)
  have c: "int (n div 2) = c" by (simp add: c_def n zdiv_int)
  have lhs: "(dy, dx) \<in> set (structure_offsets (structuring_element a))
      \<longleftrightarrow> (\<exists>r k. r < n \<and> k < n \<and> dy = int r - c \<and> dx = int k - c
                  \<and> (int k - c)\<^sup>2 + (int r - c)\<^sup>2 \<le> c\<^sup>2)" for dy dx
    unfolding structure_offsets_def nrows_structuring_element ncols_structuring_element
    by (auto simp: structuring_element_nth n_def[symmetric] c c_def[symmetric] split: if_splits)
  have rhs: "(dy, dx) \<in> set (disc a)
      \<longleftrightarrow> - c \<le> dy \<and> dy \<le> int n - 1 - c \<and> - c \<le> dx \<and> dx \<le> int n - 1 - c
           \<and> dy\<^sup>2 + dx\<^sup>2 \<le> c\<^sup>2" for dy dx
    unfolding disc_def Let_def
    by (auto simp: n[symmetric] c_def[symmetric] split: if_splits)
  have "(dy, dx) \<in> set (structure_offsets (structuring_element a))
      \<longleftrightarrow> (dy, dx) \<in> set (disc a)" for dy dx
  proof
    assume "(dy, dx) \<in> set (structure_offsets (structuring_element a))"
    then obtain r k where rk: "r < n" "k < n" "dy = int r - c" "dx = int k - c"
        "(int k - c)\<^sup>2 + (int r - c)\<^sup>2 \<le> c\<^sup>2"
      unfolding lhs by blast
    then have "- c \<le> dy" "dy \<le> int n - 1 - c" "- c \<le> dx" "dx \<le> int n - 1 - c"
        "dy\<^sup>2 + dx\<^sup>2 \<le> c\<^sup>2"
      by (simp_all add: add.commute)
    then show "(dy, dx) \<in> set (disc a)"
      unfolding rhs by blast
  next
    assume "(dy, dx) \<in> set (disc a)"
    then have d: "- c \<le> dy" "dy \<le> int n - 1 - c" "- c \<le> dx" "dx \<le> int n - 1 - c"
        "dy\<^sup>2 + dx\<^sup>2 \<le> c\<^sup>2"
      unfolding rhs by blast+
    have "nat (dy + c) < n" "nat (dx + c) < n" using d by linarith+
    moreover have "dy = int (nat (dy + c)) - c" "dx = int (nat (dx + c)) - c"
      using d by simp_all
    moreover have "(int (nat (dx + c)) - c)\<^sup>2 + (int (nat (dy + c)) - c)\<^sup>2 \<le> c\<^sup>2"
      using d by (simp add: add.commute)
    ultimately show "(dy, dx) \<in> set (structure_offsets (structuring_element a))"
      unfolding lhs by blast
  qed
  then show ?thesis by auto
qed

lemma disc_neg: "disc (- a) = disc a"
  by (simp add: disc_def)

lemma binary_dilation_structuring_element:
  assumes "a \<noteq> 0"
  shows "binary_dilation mask_img (structuring_element a)
           = Inr (map (\<lambda>i. map (\<lambda>j. dilated mask_img (disc a) i j) [0..<ncols mask_img])
                    [0..<nrows mask_img])"
  using assms
  by (simp add: binary_dilation_def array_size_structuring_element dilated_def list_ex_iff
        structure_offsets_structuring_element)

lemma binary_erosion_structuring_element:
  assumes "a \<noteq> 0"
  shows "binary_erosion mask_img (structuring_element a)
           = Inr (map (\<lambda>i. map (\<lambda>j. eroded mask_img (disc a) i j) [0..<ncols mask_img])
                    [0..<nrows mask_img])"
  using assms
  by (simp add: binary_erosion_def array_size_structuring_element eroded_def list_all_iff
        structure_offsets_structuring_element)

lemma dilate_mask_empty:
  "dilate_mask mask_img 0 = Inl RuntimeError"
  by (simp add: dilate_mask_structuring_element binary_dilation_def
        array_size_structuring_element)

lemma array_xor_maps:
  "array_xor (map (\<lambda>i. map (f i) js) is) (map (\<lambda>i. map (g i) js) is)
     = map (\<lambda>i. map (\<lambda>j. f i j \<noteq> g i j) js) is"
  by (simp add: array_xor_def map2_same_index)

lemma dilate_then_erode:
  assumes "a \<noteq> 0"
  shows "(case dilate_mask mask_img a of
            Inl e \<Rightarrow> Inl e
          | Inr dilate_binary_img \<Rightarrow>
              (case dilate_mask mask_img (- a) of
                 Inl e \<Rightarrow> Inl e
               | Inr erode_binary_img \<Rightarrow>
                   Inr (astype_uint8_times_255 (array_xor dilate_binary_img erode_binary_img))))
         = Inr (map (\<lambda>i. map (\<lambda>j.
                  if dilated mask_img (disc a) i j \<noteq> eroded mask_img (disc a) i j
                  then 255 else 0) [0..<ncols mask_img]) [0..<nrows mask_img])"
proof -
  let ?D = "map (\<lambda>i. map (\<lambda>j. dilated mask_img (disc a) i j) [0..<ncols mask_img])
              [0..<nrows mask_img]"
  let ?E = "map (\<lambda>i. map (\<lambda>j. eroded mask_img (disc a) i j) [0..<ncols mask_img])
              [0..<nrows mask_img]"
  let ?R = "map (\<lambda>i. map (\<lambda>j.
                  if dilated mask_img (disc a) i j \<noteq> eroded mask_img (disc a) i j
                  then 255 else 0) [0..<ncols mask_img]) [0..<nrows mask_img]"
  have na: "- a \<noteq> 0" using assms by simp
  have out: "astype_uint8_times_255 (array_xor ?D ?E) = ?R"
    "astype_uint8_times_255 (array_xor ?E ?D) = ?R"
    by (auto simp: array_xor_maps astype_uint8_times_255_def)
  have D: "binary_dilation mask_img (structuring_element a) = Inr ?D"
    "binary_dilation mask_img (structuring_element (- a)) = Inr ?D"
    using binary_dilation_structuring_element[OF assms, of mask_img]
      binary_dilation_structuring_element[OF na, of mask_img]
    by (simp_all add: disc_neg)
  have E: "binary_erosion mask_img (structuring_element a) = Inr ?E"
    "binary_erosion mask_img (structuring_element (- a)) = Inr ?E"
    using binary_erosion_structuring_element[OF assms, of mask_img]
      binary_erosion_structuring_element[OF na, of mask_img]
    by (simp_all add: disc_neg)
  show ?thesis
  proof (cases "a < 0")
    case True
    then have "dilate_mask mask_img a = Inr ?E" "dilate_mask mask_img (- a) = Inr ?D"
      by (simp_all add: dilate_mask_structuring_element D E)
    then show ?thesis by (simp add: out)
  next
    case False
    with assms have "0 < a" by simp
    then have "dilate_mask mask_img a = Inr ?D" "dilate_mask mask_img (- a) = Inr ?E"
      by (simp_all add: dilate_mask_structuring_element D E)
    then show ?thesis by (simp add: out)
  qed
qed

lemma get_edge_mask_spec:
  assumes "mask_width div 2 \<noteq> 0"
  shows "get_edge_mask mask_img mask_width = Inr (edge_mask_spec mask_img mask_width)"
  unfolding get_edge_mask_def Let_def edge_mask_spec_def
  by (rule dilate_then_erode[OF assms])

lemma get_edge_mask_empty:
  assumes "mask_width div 2 = 0"
  shows "get_edge_mask mask_img mask_width = Inl RuntimeError"
  using assms by (simp add: get_edge_mask_def dilate_mask_empty)

text \<open>
  C3, as the code has it. For every mask and every \<open>mask_width\<close> with
  \<open>mask_width // 2\<close> other than 0, both library calls succeed on the same
  structuring element, the one of the amount \<open>mask_width // 2\<close>, and
  \<open>get_edge_mask\<close> returns the XOR of the dilation and the erosion, scaled to 255:
  the edge mask of the specification.
\<close>

theorem edge_mask_dilation_xor_erosion:
  assumes "mask_width div 2 \<noteq> 0"
  shows "\<exists>dilate_binary_img erode_binary_img.
           binary_dilation mask_img (structuring_element (mask_width div 2))
             = Inr dilate_binary_img
         \<and> binary_erosion mask_img (structuring_element (mask_width div 2))
             = Inr erode_binary_img
         \<and> get_edge_mask mask_img mask_width
             = Inr (astype_uint8_times_255 (array_xor dilate_binary_img erode_binary_img))
         \<and> get_edge_mask mask_img mask_width = Inr (edge_mask_spec mask_img mask_width)"
proof -
  let ?a = "mask_width div 2"
  let ?D = "map (\<lambda>i. map (\<lambda>j. dilated mask_img (disc ?a) i j) [0..<ncols mask_img])
              [0..<nrows mask_img]"
  let ?E = "map (\<lambda>i. map (\<lambda>j. eroded mask_img (disc ?a) i j) [0..<ncols mask_img])
              [0..<nrows mask_img]"
  have "binary_dilation mask_img (structuring_element ?a) = Inr ?D"
    by (rule binary_dilation_structuring_element[OF assms])
  moreover have "binary_erosion mask_img (structuring_element ?a) = Inr ?E"
    by (rule binary_erosion_structuring_element[OF assms])
  moreover have spec: "get_edge_mask mask_img mask_width
                         = Inr (edge_mask_spec mask_img mask_width)"
    by (rule get_edge_mask_spec[OF assms])
  moreover have "astype_uint8_times_255 (array_xor ?D ?E) = edge_mask_spec mask_img mask_width"
    by (auto simp: array_xor_maps astype_uint8_times_255_def edge_mask_spec_def)
  ultimately show ?thesis by simp
qed

text \<open>A single pixel, width 6: the amount is 3, the disc is a plus, the dilation
  is the plus around the pixel and the erosion is empty.\<close>

theorem edge_mask_dilation_xor_erosion_witness:
  "(6::int) div 2 \<noteq> 0
   \<and> get_edge_mask [[0, 0, 0], [0, 255, 0], [0, 0, 0]] 6
       = Inr (edge_mask_spec [[0, 0, 0], [0, 255, 0], [0, 0, 0]] 6)
   \<and> edge_mask_spec [[0, 0, 0], [0, 255, 0], [0, 0, 0]] 6
       = [[0, 255, 0], [255, 255, 255], [0, 255, 0]]"
proof -
  have h: "(6::int) div 2 \<noteq> 0" by simp
  from edge_mask_dilation_xor_erosion[OF h, of "[[0, 0, 0], [0, 255, 0], [0, 0, 0]]"]
  have "get_edge_mask [[0, 0, 0], [0, 255, 0], [0, 0, 0]] 6
       = Inr (edge_mask_spec [[0, 0, 0], [0, 255, 0], [0, 0, 0]] 6)"
    by blast
  moreover have "edge_mask_spec [[0, 0, 0], [0, 255, 0], [0, 0, 0]] 6
       = [[0, 255, 0], [255, 255, 255], [0, 255, 0]]"
    by code_simp
  ultimately show ?thesis using h by blast
qed

text \<open>
  C3 as stated fails for the widths 0 and 1. The amount is 0, so the kernel has no
  cell and both calls of \<open>dilate_mask\<close> take the dilation branch (\<open>-0 < 0\<close> is
  false); the library refuses the empty structure and no edge mask is computed.
\<close>

theorem edge_mask_width_one_counterexample:
  "get_edge_mask [[255]] 1 = Inl RuntimeError
   \<and> get_edge_mask [[255]] 1 \<noteq> Inr (edge_mask_spec [[255]] 1)"
proof -
  have "(1::int) div 2 = 0" by simp
  then have "get_edge_mask [[255]] 1 = Inl RuntimeError"
    by (rule get_edge_mask_empty)
  then show ?thesis by simp
qed

subsection \<open>C10: the edge mask is binary-valued\<close>

lemma binary_valued_astype: "binary_valued (astype_uint8_times_255 a)"
  by (auto simp: binary_valued_def astype_uint8_times_255_def)

lemma get_edge_mask_result:
  assumes "get_edge_mask mask_img mask_width = Inr img"
  shows "\<exists>a. img = astype_uint8_times_255 a"
  using assms
  by (auto simp: get_edge_mask_def Let_def split: sum.splits)

text \<open>
  C10. Every pixel of an image that \<open>get_edge_mask\<close> returns is 0 or 255, for
  every mask and width; and it does return an image whenever \<open>mask_width // 2\<close> is
  not 0.
\<close>

theorem edge_mask_binary_valued:
  "(mask_width div 2 \<noteq> 0 \<longrightarrow> (\<exists>img. get_edge_mask mask_img mask_width = Inr img))
   \<and> (\<forall>img. get_edge_mask mask_img mask_width = Inr img \<longrightarrow> binary_valued img)"
proof (intro conjI impI allI)
  assume "mask_width div 2 \<noteq> 0"
  then show "\<exists>img. get_edge_mask mask_img mask_width = Inr img"
    using get_edge_mask_spec by blast
next
  fix img
  assume "get_edge_mask mask_img mask_width = Inr img"
  then obtain a where "img = astype_uint8_times_255 a"
    using get_edge_mask_result by blast
  then show "binary_valued img"
    by (simp add: binary_valued_astype)
qed

text \<open>A single pixel, width 4: the amount is 2 and the kernel covers the pixel,
  the one above it and the one to its left.\<close>

theorem edge_mask_binary_valued_witness:
  "(4::int) div 2 \<noteq> 0
   \<and> get_edge_mask [[0, 0, 0], [0, 255, 0], [0, 0, 0]] 4
       = Inr [[0, 255, 0], [255, 255, 0], [0, 0, 0]]
   \<and> binary_valued [[0, 255, 0], [255, 255, 0], [0, 0, 0]]"
proof -
  have run: "get_edge_mask [[0, 0, 0], [0, 255, 0], [0, 0, 0]] 4
       = Inr [[0, 255, 0], [255, 255, 0], [0, 0, 0]]"
    by code_simp
  from edge_mask_binary_valued[of 4 "[[0, 0, 0], [0, 255, 0], [0, 0, 0]]"]
  have "\<forall>img. get_edge_mask [[0, 0, 0], [0, 255, 0], [0, 0, 0]] 4 = Inr img
          \<longrightarrow> binary_valued img"
    by (rule conjunct2)
  from this[rule_format, OF run]
  have "binary_valued [[0, 255, 0], [255, 255, 0], [0, 0, 0]]" .
  with run show ?thesis by simp
qed

subsection \<open>Decimal literals, resolutions and \<open>resize\<close>\<close>

text \<open>\<open>int(str(i))\<close> is \<open>i\<close>: the literal that \<open>str\<close> writes has digits only,
  after a minus sign for a negative number.\<close>

lemma digit_cases:
  "d < 10 \<Longrightarrow> d = 0 \<or> d = 1 \<or> d = 2 \<or> d = 3 \<or> d = 4 \<or> d = 5 \<or> d = 6 \<or> d = 7
      \<or> d = 8 \<or> d = (9::nat)"
  by arith

lemma digit_char_props:
  assumes "d < 10"
  shows "is_digit (digit_char d)" and "digit_value (digit_char d) = d"
    and "\<not> is_space (digit_char d)" and "digit_char d \<noteq> CHR ''x''"
    and "digit_char d \<noteq> CHR ''-''" and "digit_char d \<noteq> CHR ''+''"
  using digit_cases[OF assms]
  by (auto simp: is_digit_def digit_value_def digit_char_def is_space_def)

lemma more_digits_all_digits:
  assumes "\<forall>c \<in> set s. is_digit c"
  shows "more_digits acc s = Some (foldl (\<lambda>a c. a * 10 + digit_value c) acc s)"
  using assms by (induction s arbitrary: acc) simp_all

lemma str_nat_digits: "\<forall>c \<in> set (str_nat n). \<exists>d < 10. c = digit_char d"
proof (induction n rule: str_nat.induct)
  case (1 n)
  show ?case
  proof (cases "n < 10")
    case True
    then show ?thesis by (subst str_nat.simps) auto
  next
    case False
    have "\<exists>d<10. digit_char (n mod 10) = digit_char d"
      by (rule exI[of _ "n mod 10"]) simp
    with False 1 show ?thesis by (subst str_nat.simps) simp
  qed
qed

lemma str_nat_not_empty: "str_nat n \<noteq> []"
  by (subst str_nat.simps) simp

lemma str_nat_value: "foldl (\<lambda>a c. a * 10 + digit_value c) 0 (str_nat n) = n"
proof (induction n rule: str_nat.induct)
  case (1 n)
  show ?case
  proof (cases "n < 10")
    case True
    then show ?thesis
      by (subst str_nat.simps) (simp add: digit_char_props)
  next
    case False
    have "n mod 10 < 10" by simp
    then have "digit_value (digit_char (n mod 10)) = n mod 10"
      by (rule digit_char_props)
    with False 1 show ?thesis
      by (subst str_nat.simps) simp
  qed
qed

lemma str_nat_all:
  "\<forall>c \<in> set (str_nat n). is_digit c \<and> \<not> is_space c \<and> c \<noteq> CHR ''x''
       \<and> c \<noteq> CHR ''-'' \<and> c \<noteq> CHR ''+''"
proof
  fix c assume "c \<in> set (str_nat n)"
  then obtain d where d: "d < 10" "c = digit_char d"
    using str_nat_digits[of n] by blast
  show "is_digit c \<and> \<not> is_space c \<and> c \<noteq> CHR ''x'' \<and> c \<noteq> CHR ''-'' \<and> c \<noteq> CHR ''+''"
    unfolding d(2) using digit_char_props[OF d(1)] by simp
qed

lemma decimal_str_nat: "decimal (str_nat n) = Some n"
proof -
  obtain c cs where s: "str_nat n = c # cs"
    using str_nat_not_empty[of n] by (cases "str_nat n") auto
  have all: "\<forall>c \<in> set (c # cs). is_digit c"
    using str_nat_all[of n] s by simp
  then have "decimal (c # cs) = Some (foldl (\<lambda>a c. a * 10 + digit_value c) (digit_value c) cs)"
    by (simp add: decimal_def more_digits_all_digits)
  also have "foldl (\<lambda>a c. a * 10 + digit_value c) (digit_value c) cs = foldl (\<lambda>a c. a * 10 + digit_value c) 0 (c # cs)"
    by simp
  finally show ?thesis
    using s str_nat_value[of n] by simp
qed

lemma dropWhile_both_ends:
  assumes "s \<noteq> []" and "\<not> P (hd s)" and "\<not> P (last s)"
  shows "rev (dropWhile P (rev (dropWhile P s))) = s"
proof -
  from assms have "dropWhile P s = s"
    by (cases s) simp_all
  moreover from assms have "dropWhile P (rev s) = rev s"
    by (cases "rev s") (simp_all add: hd_rev)
  ultimately show ?thesis by simp
qed

lemma strip_unchanged:
  assumes "s \<noteq> []" and "\<not> is_space (hd s)" and "\<not> is_space (last s)"
  shows "strip s = s"
  unfolding strip_def using assms by (rule dropWhile_both_ends)

lemma is_int_space_is_space:
  assumes "is_int_space c"
  shows "is_space c"
  using assms by (auto simp: is_int_space_def is_space_def Let_def)

lemma int_strip_unchanged:
  assumes "s \<noteq> []" and "\<not> is_space (hd s)" and "\<not> is_space (last s)"
  shows "int_strip s = s"
  unfolding int_strip_def using assms
  by (intro dropWhile_both_ends) (auto dest: is_int_space_is_space)

lemma str_int_ends:
  "str_int i \<noteq> []" "\<not> is_space (hd (str_int i))" "\<not> is_space (last (str_int i))"
  "CHR ''x'' \<notin> set (str_int i)"
proof -
  have ne: "str_nat n \<noteq> []" for n by (rule str_nat_not_empty)
  have "hd (str_nat n) \<in> set (str_nat n)" "last (str_nat n) \<in> set (str_nat n)" for n
    using ne[of n] by simp_all
  then have ends: "\<not> is_space (hd (str_nat n))" "\<not> is_space (last (str_nat n))" for n
    using str_nat_all[of n] by blast+
  show "str_int i \<noteq> []" by (simp add: str_int_def ne)
  have "\<not> is_space CHR ''-''" by (simp add: is_space_def)
  then show "\<not> is_space (hd (str_int i))"
    by (simp add: str_int_def ends)
  show "\<not> is_space (last (str_int i))"
    by (simp add: str_int_def ends ne)
  show "CHR ''x'' \<notin> set (str_int i)"
    using str_nat_all by (auto simp: str_int_def)
qed

lemma py_int_str_int: "py_int (str_int i) = Inr i"
proof -
  have strip: "int_strip (str_int i) = str_int i"
    by (rule int_strip_unchanged) (rule str_int_ends)+
  show ?thesis
  proof (cases "i < 0")
    case True
    then show ?thesis
      by (simp add: py_int_def strip) (simp add: str_int_def decimal_str_nat)
  next
    case False
    obtain c cs where s: "str_nat (nat i) = c # cs"
      using str_nat_not_empty[of "nat i"] by (cases "str_nat (nat i)") auto
    then have "c \<noteq> CHR ''-''" "c \<noteq> CHR ''+''"
      using str_nat_all[of "nat i"] by auto
    moreover have "decimal (c # cs) = Some (nat i)"
      using decimal_str_nat[of "nat i"] s by simp
    ultimately show ?thesis
      using False s by (simp add: py_int_def strip) (simp add: str_int_def)
  qed
qed

lemma str_split_no_sep:
  assumes "sep \<notin> set s"
  shows "str_split sep s = [s]"
  using assms by (induction s) auto

lemma str_split_at_sep:
  assumes "sep \<notin> set a"
  shows "str_split sep (a @ sep # b) = a # str_split sep b"
  using assms by (induction a) auto

lemma working_resolution_canonical:
  "working_resolution img (str_int w @ ''x'' @ str_int h)
     = Inr [w div 32 * 32, h div 32 * 32]"
proof -
  let ?s = "str_int w @ ''x'' @ str_int h"
  have ne: "?s \<noteq> []" by simp
  have "hd ?s = hd (str_int w)" "last ?s = last (str_int h)"
    using str_int_ends(1)[of w] str_int_ends(1)[of h] by simp_all
  then have "strip ?s = ?s"
    using str_int_ends(2)[of w] str_int_ends(3)[of h] ne
    by (intro strip_unchanged) simp_all
  moreover have "str_split CHR ''x'' ?s = [str_int w, str_int h]"
    using str_int_ends(4)[of w] str_int_ends(4)[of h]
    by (simp add: str_split_at_sep str_split_no_sep)
  ultimately show ?thesis
    using ne by (simp add: working_resolution_def py_int_str_int)
qed

lemma working_resolution_empty:
  "working_resolution img [] = Inr [width img div 32 * 32, height img div 32 * 32]"
proof -
  have "working_resolution img []
          = working_resolution img (str_int (width img) @ ''x'' @ str_int (height img))"
    by (simp add: working_resolution_def)
  then show ?thesis by (simp only: working_resolution_canonical)
qed

lemma round_down_32:
  fixes w :: int
  shows "32 dvd w div 32 * 32" and "w div 32 * 32 \<le> w" and "w < w div 32 * 32 + 32"
  by presburger+

lemma ncols_map_upt:
  "ncols (map f [0..<n]) = (if n = 0 then 0 else length (f 0))"
proof (cases n)
  case 0
  then show ?thesis by (simp add: ncols_def)
next
  case (Suc k)
  have "[0..<Suc k] = 0 # [1..<Suc k]"
    by (simp add: upt_conv_Cons del: upt_Suc)
  then have "map f [0..<Suc k] = f 0 # map f [1..<Suc k]"
    by (simp only: list.map)
  then show ?thesis
    unfolding Suc by (simp only: ncols_def list.case) simp
qed

lemma resize_result:
  assumes "resize resample img [w, h] = Inr r"
  shows "((w, h) = (width img, height img) \<and> r = img)
       \<or> (1 \<le> w \<and> 1 \<le> h \<and> w < 2 ^ 31 \<and> h < 2 ^ 31
          \<and> (\<exists>px. resample img (nat w, nat h) = Inr px
                \<and> r = map (\<lambda>y. map (\<lambda>x. px y x) [0..<nat w]) [0..<nat h]))"
proof (cases "(w, h) = (width img, height img)")
  case True
  then have "resize resample img [w, h] = Inr img"
    by (simp add: resize_def)
  with assms True show ?thesis by simp
next
  case False
  have step: "resize resample img [w, h]
      = (if w < - (2 ^ 31) \<or> 2 ^ 31 \<le> w \<or> h < - (2 ^ 31) \<or> 2 ^ 31 \<le> h
         then Inl OverflowError
         else if w < 1 \<or> h < 1 then Inl ValueError
         else (case resample img (nat w, nat h) of
                 Inl e \<Rightarrow> Inl e
               | Inr px \<Rightarrow> Inr (map (\<lambda>r. map (\<lambda>c. px r c) [0..<nat w]) [0..<nat h])))"
    by (simp only: resize_def list.case if_not_P[OF False])
  from assms have range: "\<not> (w < - (2 ^ 31) \<or> 2 ^ 31 \<le> w \<or> h < - (2 ^ 31) \<or> 2 ^ 31 \<le> h)"
    unfolding step by (auto split: if_splits)
  from assms have pos: "\<not> (w < 1 \<or> h < 1)"
    unfolding step by (auto split: if_splits)
  from assms obtain px where px: "resample img (nat w, nat h) = Inr px"
    and r: "r = map (\<lambda>y. map (\<lambda>x. px y x) [0..<nat w]) [0..<nat h]"
    unfolding step by (auto split: if_splits sum.splits)
  from range pos have "1 \<le> w" "1 \<le> h" "w < 2 ^ 31" "h < 2 ^ 31" by linarith+
  with px r show ?thesis by blast
qed

lemma resize_size:
  assumes "resize resample img [w, h] = Inr r"
  shows "width r = w" and "height r = h"
proof -
  from resize_result[OF assms] have "width r = w \<and> height r = h"
  proof
    assume "(w, h) = (width img, height img) \<and> r = img"
    then show ?thesis by simp
  next
    assume "1 \<le> w \<and> 1 \<le> h \<and> w < 2 ^ 31 \<and> h < 2 ^ 31
          \<and> (\<exists>px. resample img (nat w, nat h) = Inr px
                \<and> r = map (\<lambda>y. map (\<lambda>x. px y x) [0..<nat w]) [0..<nat h])"
    then obtain px where new: "1 \<le> w" "1 \<le> h"
        "r = map (\<lambda>y. map (\<lambda>x. px y x) [0..<nat w]) [0..<nat h]"
      by blast
    then have "nat h \<noteq> 0" by simp
    with new show ?thesis
      by (simp add: width_def height_def nrows_def ncols_map_upt)
  qed
  then show "width r = w" and "height r = h" by simp_all
qed

lemma resize_resampled:
  assumes "(w, h) \<noteq> (width img, height img)"
    and "1 \<le> w" "w < 2 ^ 31" "1 \<le> h" "h < 2 ^ 31"
  shows "resize resample img [w, h]
      = (case resample img (nat w, nat h) of
           Inl e \<Rightarrow> Inl e
         | Inr px \<Rightarrow> Inr (map (\<lambda>r. map (\<lambda>c. px r c) [0..<nat w]) [0..<nat h]))"
proof -
  from assms(2-5)
  have "\<not> (w < - (2 ^ 31) \<or> 2 ^ 31 \<le> w \<or> h < - (2 ^ 31) \<or> 2 ^ 31 \<le> h)" "\<not> (w < 1 \<or> h < 1)"
    by linarith+
  then show ?thesis
    by (simp only: resize_def list.case if_not_P[OF assms(1)] if_False)
qed

lemma resize_refused:
  assumes "(w, h) \<noteq> (width img, height img)"
    and "- (2 ^ 31) \<le> w" "w < 2 ^ 31" "- (2 ^ 31) \<le> h" "h < 2 ^ 31"
    and "w < 1 \<or> h < 1"
  shows "resize resample img [w, h] = Inl ValueError"
proof -
  from assms(2-5)
  have "\<not> (w < - (2 ^ 31) \<or> 2 ^ 31 \<le> w \<or> h < - (2 ^ 31) \<or> 2 ^ 31 \<le> h)"
    by linarith
  then show ?thesis
    using assms(6) by (simp only: resize_def list.case if_not_P[OF assms(1)] if_False if_True)
qed

lemma resize_pair_only:
  assumes "resize resample img sz = Inr r"
  shows "\<exists>w h. sz = [w, h]"
  using assms by (auto simp: resize_def split: list.splits)

subsection \<open>The runs of \<open>process\<close>\<close>

lemma process_no_flags:
  "process api self img resolution False False False edge_mask_width forwarded
     = (Inr (None, None, None), forwarded)"
  by (simp add: process_def)

lemma process_returned:
  assumes "process api self img resolution return_mask return_foreground return_edge_mask
             edge_mask_width forwarded = (Inr (m, f, e), forwarded')"
    and "return_mask \<or> return_foreground \<or> return_edge_mask"
  shows "\<exists>image_resolution image_pil pred_image mask_img.
           working_resolution img resolution = Inr image_resolution
         \<and> resize (resample_image api) img image_resolution = Inr image_pil
         \<and> forwarded' = forwarded @ [image_pil]
         \<and> resize (resample_mask api) pred_image [width img, height img] = Inr mask_img
         \<and> m = (if return_mask then Some mask_img else None)
         \<and> (if return_foreground then \<exists>fg. f = Some fg else f = None)
         \<and> (if return_edge_mask
             then \<exists>edge. get_edge_mask mask_img edge_mask_width = Inr edge \<and> e = Some edge
             else e = None)"
  using assms
  by (auto simp: process_def Let_def split: sum.splits if_splits)

lemma process_succeeds:
  assumes "return_mask \<or> return_foreground \<or> return_edge_mask"
    and "working_resolution img resolution = Inr image_resolution"
    and "resize (resample_image api) img image_resolution = Inr image_pil"
    and "proc api image_pil = Inr image_proc"
    and "forward api (birefnet self) (device self)
           (if use_fp16 self then half api image_proc else image_proc) = Inr pred"
    and "to_pil_image api pred = Inr pred_image"
    and "resize (resample_mask api) pred_image [width img, height img] = Inr mask_img"
    and "return_foreground \<longrightarrow>
           refine_foreground api img mask_img = Inr fg \<and> putalpha fg mask_img = Inr fg_alpha"
    and "return_edge_mask \<longrightarrow> get_edge_mask mask_img edge_mask_width = Inr edge"
  shows "process api self img resolution return_mask return_foreground return_edge_mask
           edge_mask_width forwarded
         = (Inr (if return_mask then Some mask_img else None,
                 if return_foreground then Some fg_alpha else None,
                 if return_edge_mask then Some edge else None),
            forwarded @ [image_pil])"
  using assms by (simp add: process_def Let_def)

lemma example_run:
  assumes "return_mask \<or> return_foreground \<or> return_edge_mask"
  shows "process example_api example_pipeline [[7, 8]] ''70x45''
           return_mask return_foreground return_edge_mask 4 []
         = (Inr (if return_mask then Some [[255, 255]] else None,
                 if return_foreground then Some [[(7, 255), (8, 255)]] else None,
                 if return_edge_mask then Some [[255, 255]] else None),
            [map (\<lambda>r. map (\<lambda>c. 0) [0..<64]) [0..<32]])"
proof (rule trans[OF process_succeeds[OF assms], of _ _ "[64, 32]"])
  show "working_resolution [[7, 8 :: nat]] ''70x45'' = Inr [64, 32]"
    by code_simp
  show "resize (resample_image example_api) [[7, 8]] [64, 32]
          = Inr (map (\<lambda>r. map (\<lambda>c. 0) [0..<64]) [0..<32])"
    by (simp add: resize_def example_api_def width_def height_def ncols_def nrows_def)
  show "proc example_api (map (\<lambda>r. map (\<lambda>c. 0) [0..<64]) [0..<32])
          = Inr (map (\<lambda>r. map (\<lambda>c. 0) [0..<64]) [0..<32])"
    by (simp add: proc_def example_api_def)
  show "forward example_api (birefnet example_pipeline) (device example_pipeline)
          (if use_fp16 example_pipeline
           then half example_api (map (\<lambda>r. map (\<lambda>c. 0) [0..<64]) [0..<32])
           else map (\<lambda>r. map (\<lambda>c. 0) [0..<64]) [0..<32])
          = Inr (map (\<lambda>r. map (\<lambda>c. 0) [0..<64]) [0..<32])"
    by (simp add: example_api_def)
  show "to_pil_image example_api (map (\<lambda>r. map (\<lambda>c. 0) [0..<64]) [0..<32]) = Inr [[255]]"
    by (simp add: example_api_def)
  show "resize (resample_mask example_api) [[255]] [width [[7, 8 :: nat]], height [[7, 8 :: nat]]]
          = Inr [[255, 255]]"
    by (simp add: resize_def example_api_def width_def height_def ncols_def nrows_def
          upt_conv_Cons)
  show "return_foreground \<longrightarrow>
          refine_foreground example_api [[7, 8]] [[255, 255]] = Inr [[7, 8]]
          \<and> putalpha [[7, 8 :: nat]] [[255, 255]] = Inr [[(7, 255), (8, 255)]]"
    by (simp add: example_api_def putalpha_def width_def height_def ncols_def nrows_def)
  show "return_edge_mask \<longrightarrow> get_edge_mask [[255, 255]] 4 = Inr [[255, 255]]"
    by code_simp
qed simp

lemma process_returned_full:
  assumes "process api self img resolution return_mask return_foreground return_edge_mask
             edge_mask_width forwarded = (Inr (m, f, e), forwarded')"
    and "return_mask \<or> return_foreground \<or> return_edge_mask"
  shows "\<exists>image_resolution image_pil image_proc pred pred_image mask_img.
           working_resolution img resolution = Inr image_resolution
         \<and> resize (resample_image api) img image_resolution = Inr image_pil
         \<and> proc api image_pil = Inr image_proc
         \<and> forward api (birefnet self) (device self)
              (if use_fp16 self then half api image_proc else image_proc) = Inr pred
         \<and> to_pil_image api pred = Inr pred_image
         \<and> forwarded' = forwarded @ [image_pil]
         \<and> resize (resample_mask api) pred_image [width img, height img] = Inr mask_img
         \<and> m = (if return_mask then Some mask_img else None)
         \<and> (if return_foreground then \<exists>fg. f = Some fg else f = None)
         \<and> (if return_edge_mask
             then \<exists>edge. get_edge_mask mask_img edge_mask_width = Inr edge \<and> e = Some edge
             else e = None)"
  using assms
  by (auto simp: process_def Let_def split: sum.splits if_splits)

lemma process_resize_raises:
  assumes "return_mask \<or> return_foreground \<or> return_edge_mask"
    and "working_resolution img resolution = Inr image_resolution"
    and "resize (resample_image api) img image_resolution = Inl err"
  shows "process api self img resolution return_mask return_foreground return_edge_mask
           edge_mask_width forwarded = (Inl err, forwarded)"
  using assms by (simp add: process_def)

lemma process_proc_raises:
  assumes "return_mask \<or> return_foreground \<or> return_edge_mask"
    and "working_resolution img resolution = Inr image_resolution"
    and "resize (resample_image api) img image_resolution = Inr image_pil"
    and "proc api image_pil = Inl err"
  shows "process api self img resolution return_mask return_foreground return_edge_mask
           edge_mask_width forwarded = (Inl err, forwarded)"
  using assms by (simp add: process_def)

lemma process_forward_raises:
  assumes "return_mask \<or> return_foreground \<or> return_edge_mask"
    and "working_resolution img resolution = Inr image_resolution"
    and "resize (resample_image api) img image_resolution = Inr image_pil"
    and "proc api image_pil = Inr image_proc"
    and "forward api (birefnet self) (device self)
           (if use_fp16 self then half api image_proc else image_proc) = Inl err"
  shows "process api self img resolution return_mask return_foreground return_edge_mask
           edge_mask_width forwarded = (Inl err, forwarded @ [image_pil])"
  using assms by (simp add: process_def Let_def)

lemma nearest_run:
  "process nearest_api example_pipeline [[7, 8]] ''70x45'' True False False 4 []
     = (Inr (Some [[255, 0]], None, None), [replicate 32 (replicate 32 7 @ replicate 32 8)])"
  by code_simp

lemma round_down_below_32:
  fixes w :: int
  shows "w div 32 * 32 < 1 \<longleftrightarrow> w < 32"
  by presburger

lemma round_down_in_range:
  fixes w :: int
  shows "- (2 ^ 31) \<le> w \<Longrightarrow> - (2 ^ 31) \<le> w div 32 * 32"
    and "w < 2 ^ 31 \<Longrightarrow> w div 32 * 32 < 2 ^ 31"
proof -
  assume "- (2 ^ 31) \<le> w"
  then have "(- (2 ^ 31)) div 32 \<le> w div 32"
    by (intro zdiv_mono1) simp_all
  then show "- (2 ^ 31) \<le> w div 32 * 32" by simp
next
  assume "w < 2 ^ 31"
  moreover have "w div 32 * 32 \<le> w" by presburger
  ultimately show "w div 32 * 32 < 2 ^ 31" by linarith
qed

subsection \<open>C1: the components of the result follow the flags\<close>

text \<open>
  C1. With all three flags false, \<open>process\<close> returns \<open>(None, None, None)\<close> at
  once: no image is handed to the network. Whenever \<open>process\<close> returns a
  triple \<open>(mask, foreground, edge_mask)\<close>, each component is \<open>None\<close> exactly when
  its flag is false. (A call that raises returns no triple.)
\<close>

theorem process_result_components:
  "(\<not> return_mask \<and> \<not> return_foreground \<and> \<not> return_edge_mask \<longrightarrow>
      process api self img resolution return_mask return_foreground return_edge_mask
        edge_mask_width forwarded = (Inr (None, None, None), forwarded))
   \<and> (\<forall>m f e forwarded'.
        process api self img resolution return_mask return_foreground return_edge_mask
          edge_mask_width forwarded = (Inr (m, f, e), forwarded') \<longrightarrow>
        (m = None \<longleftrightarrow> \<not> return_mask) \<and> (f = None \<longleftrightarrow> \<not> return_foreground)
        \<and> (e = None \<longleftrightarrow> \<not> return_edge_mask))"
proof (intro conjI impI allI)
  assume "\<not> return_mask \<and> \<not> return_foreground \<and> \<not> return_edge_mask"
  then show "process api self img resolution return_mask return_foreground return_edge_mask
        edge_mask_width forwarded = (Inr (None, None, None), forwarded)"
    by (simp add: process_no_flags)
next
  fix m f e forwarded'
  assume run: "process api self img resolution return_mask return_foreground return_edge_mask
          edge_mask_width forwarded = (Inr (m, f, e), forwarded')"
  have "(m = None \<longleftrightarrow> \<not> return_mask) \<and> (f = None \<longleftrightarrow> \<not> return_foreground)
        \<and> (e = None \<longleftrightarrow> \<not> return_edge_mask)"
  proof (cases "return_mask \<or> return_foreground \<or> return_edge_mask")
    case True
    from process_returned[OF run True] show ?thesis
      by (auto split: if_splits)
  next
    case False
    with run show ?thesis by (simp add: process_no_flags)
  qed
  then show "m = None \<longleftrightarrow> \<not> return_mask" and "f = None \<longleftrightarrow> \<not> return_foreground"
    and "e = None \<longleftrightarrow> \<not> return_edge_mask"
    by simp_all
qed

text \<open>The example with no flag set, and with the mask and the edge mask asked for.\<close>

theorem process_result_components_witness:
  "process example_api example_pipeline [[7, 8]] ''70x45'' False False False 4 []
     = (Inr (None, None, None), [])
   \<and> process example_api example_pipeline [[7, 8]] ''70x45'' True False True 4 []
     = (Inr (Some [[255, 255]], None, Some [[255, 255]]),
        [map (\<lambda>r. map (\<lambda>c. 0) [0..<64]) [0..<32]])
   \<and> (Some [[255, 255 :: uint8]] = None \<longleftrightarrow> \<not> True)
   \<and> ((None :: (nat \<times> uint8) image option) = None \<longleftrightarrow> \<not> False)"
proof -
  have none: "process example_api example_pipeline [[7, 8]] ''70x45'' False False False 4 []
     = (Inr (None, None, None), [])"
    using process_result_components[of False False False example_api example_pipeline
            "[[7, 8]]" "''70x45''" 4 "[]"]
    by blast
  have run: "process example_api example_pipeline [[7, 8]] ''70x45'' True False True 4 []
     = (Inr (Some [[255, 255]], None, Some [[255, 255]]),
        [map (\<lambda>r. map (\<lambda>c. 0) [0..<64]) [0..<32]])"
    using example_run[of True False True] by simp
  have "\<forall>m f e forwarded'.
        process example_api example_pipeline [[7, 8]] ''70x45'' True False True 4 []
          = (Inr (m, f, e), forwarded') \<longrightarrow>
        (m = None \<longleftrightarrow> \<not> True) \<and> (f = None \<longleftrightarrow> \<not> False) \<and> (e = None \<longleftrightarrow> \<not> True)"
    using process_result_components[of True False True example_api example_pipeline
            "[[7, 8]]" "''70x45''" 4 "[]"]
    by (rule conjunct2)
  from this[rule_format, OF run]
  have "(Some [[255, 255 :: uint8]] = None \<longleftrightarrow> \<not> True)
      \<and> ((None :: (nat \<times> uint8) image option) = None \<longleftrightarrow> \<not> False)"
    by blast
  with none run show ?thesis by blast
qed

subsection \<open>C2: the working resolution is rounded down to multiples of 32\<close>

text \<open>
  C2, as the code has it. Let the resolution be the string \<open>WxH\<close> of two
  integers, each of at most 4300 digits (what \<open>int\<close> accepts under the default
  setting of the interpreter), or the empty string with \<open>W\<close> and \<open>H\<close> the width
  and height of the input, and let at least one result be asked for (with none,
  \<open>process\<close> returns before it reads the resolution).

  The size that \<open>process\<close> computes is \<open>(W // 32 * 32, H // 32 * 32)\<close>: each
  dimension is the multiple of 32 at or below the requested value and less than 32
  away from it. \<open>process\<close> calls \<open>resize\<close> with that size, and an exception of
  \<open>resize\<close> is raised by \<open>process\<close> with nothing given to the network. So it is
  for a requested dimension below 32, both dimensions being within 32 bits: the
  target is 0 or negative, which \<open>resize\<close> refuses with \<open>ValueError\<close> (unless
  the input has the target size already). For \<open>W\<close> and \<open>H\<close> from 32 to below
  \<open>2 ** 31\<close>, \<open>resize\<close> returns when the resampling of the library does.

  When \<open>resize\<close> returns, the resized image has exactly the target size, and it
  is this image that is preprocessed and whose tensor is given to the network: an
  exception of the preprocessing or of the network on it is raised by
  \<open>process\<close>, and when \<open>process\<close> returns, both have returned on it.
\<close>

theorem working_resolution_rounds_down:
  assumes "resolution = str_int w @ ''x'' @ str_int h
           \<or> (resolution = [] \<and> w = width img \<and> h = height img)"
    and "return_mask \<or> return_foreground \<or> return_edge_mask"
    and "length (str_nat (nat (abs w))) \<le> 4300 \<and> length (str_nat (nat (abs h))) \<le> 4300"
  shows "let target_w = w div 32 * 32;
             target_h = h div 32 * 32;
             result = process api self img resolution return_mask return_foreground
                        return_edge_mask edge_mask_width forwarded
         in working_resolution img resolution = Inr [target_w, target_h]
          \<and> 32 dvd target_w \<and> target_w \<le> w \<and> w < target_w + 32
          \<and> 32 dvd target_h \<and> target_h \<le> h \<and> h < target_h + 32
          \<and> (\<forall>err. resize (resample_image api) img [target_w, target_h] = Inl err \<longrightarrow>
                result = (Inl err, forwarded))
          \<and> ((w < 32 \<or> h < 32) \<and> - (2 ^ 31) \<le> w \<and> w < 2 ^ 31 \<and> - (2 ^ 31) \<le> h \<and> h < 2 ^ 31
              \<and> (target_w, target_h) \<noteq> (width img, height img) \<longrightarrow>
                result = (Inl ValueError, forwarded))
          \<and> (32 \<le> w \<and> w < 2 ^ 31 \<and> 32 \<le> h \<and> h < 2 ^ 31
              \<and> (\<exists>px. resample_image api img (nat target_w, nat target_h) = Inr px) \<longrightarrow>
                (\<exists>image_pil. resize (resample_image api) img [target_w, target_h]
                                = Inr image_pil))
          \<and> (\<forall>image_pil.
                resize (resample_image api) img [target_w, target_h] = Inr image_pil \<longrightarrow>
                width image_pil = target_w \<and> height image_pil = target_h
              \<and> (\<forall>err. proc api image_pil = Inl err \<longrightarrow> result = (Inl err, forwarded))
              \<and> (\<forall>image_proc err.
                    proc api image_pil = Inr image_proc
                    \<and> forward api (birefnet self) (device self)
                         (if use_fp16 self then half api image_proc else image_proc) = Inl err
                    \<longrightarrow> result = (Inl err, forwarded @ [image_pil]))
              \<and> (\<forall>r forwarded'.
                    result = (Inr r, forwarded') \<longrightarrow>
                    forwarded' = forwarded @ [image_pil]
                    \<and> (\<exists>image_proc pred.
                          proc api image_pil = Inr image_proc
                        \<and> forward api (birefnet self) (device self)
                             (if use_fp16 self then half api image_proc else image_proc)
                            = Inr pred)))"
proof -
  let ?tw = "w div 32 * 32"
  let ?th = "h div 32 * 32"
  let ?result = "process api self img resolution return_mask return_foreground
                   return_edge_mask edge_mask_width forwarded"
  note flags = assms(2)
  have wr: "working_resolution img resolution = Inr [?tw, ?th]"
    using assms(1) working_resolution_canonical working_resolution_empty by blast
  have raises: "?result = (Inl err, forwarded)"
    if "resize (resample_image api) img [?tw, ?th] = Inl err" for err
    using flags wr that by (rule process_resize_raises)
  have small: "?result = (Inl ValueError, forwarded)"
    if s: "(w < 32 \<or> h < 32) \<and> - (2 ^ 31) \<le> w \<and> w < 2 ^ 31 \<and> - (2 ^ 31) \<le> h \<and> h < 2 ^ 31
           \<and> (?tw, ?th) \<noteq> (width img, height img)"
  proof -
    from s have "?tw < 1 \<or> ?th < 1"
      by (simp only: round_down_below_32)
    with s have "resize (resample_image api) img [?tw, ?th] = Inl ValueError"
      using round_down_in_range[of w] round_down_in_range[of h]
      by (intro resize_refused) blast+
    then show ?thesis by (rule raises)
  qed
  have large: "\<exists>image_pil. resize (resample_image api) img [?tw, ?th] = Inr image_pil"
    if l: "32 \<le> w \<and> w < 2 ^ 31 \<and> 32 \<le> h \<and> h < 2 ^ 31
           \<and> (\<exists>px. resample_image api img (nat ?tw, nat ?th) = Inr px)"
  proof (cases "(?tw, ?th) = (width img, height img)")
    case True
    then have "resize (resample_image api) img [?tw, ?th] = Inr img"
      by (simp add: resize_def)
    then show ?thesis by blast
  next
    case False
    from l obtain px where px: "resample_image api img (nat ?tw, nat ?th) = Inr px"
      by blast
    from l have "\<not> ?tw < 1" "\<not> ?th < 1"
      by (simp_all only: round_down_below_32) simp_all
    then have "1 \<le> ?tw" "1 \<le> ?th" by linarith+
    moreover from l have "?tw < 2 ^ 31" "?th < 2 ^ 31"
      using round_down_in_range(2)[of w] round_down_in_range(2)[of h] by blast+
    ultimately have "resize (resample_image api) img [?tw, ?th]
        = (case resample_image api img (nat ?tw, nat ?th) of
             Inl e \<Rightarrow> Inl e
           | Inr px \<Rightarrow> Inr (map (\<lambda>r. map (\<lambda>c. px r c) [0..<nat ?tw]) [0..<nat ?th]))"
      using False by (intro resize_resampled)
    with px show ?thesis by simp
  qed
  have resized: "width image_pil = ?tw \<and> height image_pil = ?th
      \<and> (\<forall>err. proc api image_pil = Inl err \<longrightarrow> ?result = (Inl err, forwarded))
      \<and> (\<forall>image_proc err.
            proc api image_pil = Inr image_proc
            \<and> forward api (birefnet self) (device self)
                 (if use_fp16 self then half api image_proc else image_proc) = Inl err
            \<longrightarrow> ?result = (Inl err, forwarded @ [image_pil]))
      \<and> (\<forall>r forwarded'.
            ?result = (Inr r, forwarded') \<longrightarrow>
            forwarded' = forwarded @ [image_pil]
            \<and> (\<exists>image_proc pred.
                  proc api image_pil = Inr image_proc
                \<and> forward api (birefnet self) (device self)
                     (if use_fp16 self then half api image_proc else image_proc) = Inr pred))"
    if rs: "resize (resample_image api) img [?tw, ?th] = Inr image_pil" for image_pil
  proof (intro conjI allI impI)
    show "width image_pil = ?tw" "height image_pil = ?th"
      using resize_size[OF rs] by simp_all
  next
    fix err assume "proc api image_pil = Inl err"
    with flags wr rs show "?result = (Inl err, forwarded)"
      by (rule process_proc_raises)
  next
    fix image_proc err
    assume "proc api image_pil = Inr image_proc
            \<and> forward api (birefnet self) (device self)
                 (if use_fp16 self then half api image_proc else image_proc) = Inl err"
    then show "?result = (Inl err, forwarded @ [image_pil])"
      using process_forward_raises[OF flags wr rs] by blast
  next
    fix r forwarded'
    assume p: "?result = (Inr r, forwarded')"
    obtain m f e where r: "r = (m, f, e)" by (cases r)
    from process_returned_full[OF p[unfolded r] flags] wr rs
    show "forwarded' = forwarded @ [image_pil]"
      and "\<exists>image_proc pred.
                  proc api image_pil = Inr image_proc
                \<and> forward api (birefnet self) (device self)
                     (if use_fp16 self then half api image_proc else image_proc) = Inr pred"
      by auto
  qed
  show ?thesis
    unfolding Let_def
    using wr round_down_32[of w] round_down_32[of h] raises small large resized
    by blast
qed

text \<open>The resolution \<open>70x45\<close> on an input of 2 by 1 pixels: the working
  resolution is 64 by 32, the input is resized to it by nearest neighbour, and the
  resized image is what the preprocessing and the network receive, also when one
  of them raises. The resolution \<open>20x45\<close> gives the target \<open>(0, 32)\<close>, and
  \<open>ValueError\<close>.\<close>

theorem working_resolution_rounds_down_witness:
  "''70x45'' = str_int 70 @ ''x'' @ str_int 45
   \<and> working_resolution [[7, 8 :: nat]] ''70x45'' = Inr [64, 32]
   \<and> resize (resample_image nearest_api) [[7, 8]] [64, 32]
       = Inr (replicate 32 (replicate 32 7 @ replicate 32 8))
   \<and> width (replicate 32 (replicate 32 (7 :: nat) @ replicate 32 8)) = 64
   \<and> height (replicate 32 (replicate 32 (7 :: nat) @ replicate 32 8)) = 32
   \<and> process nearest_api example_pipeline [[7, 8]] ''70x45'' True False False 4 []
       = (Inr (Some [[255, 0]], None, None), [replicate 32 (replicate 32 7 @ replicate 32 8)])
   \<and> process (nearest_api\<lparr>transform_image := \<lambda>img. Inl OtherError\<rparr>) example_pipeline
         [[7, 8]] ''70x45'' True False False 4 []
       = (Inl OtherError, [])
   \<and> process (nearest_api\<lparr>forward := \<lambda>net dev t. Inl OtherError\<rparr>) example_pipeline
         [[7, 8]] ''70x45'' True False False 4 []
       = (Inl OtherError, [replicate 32 (replicate 32 7 @ replicate 32 8)])
   \<and> ''20x45'' = str_int 20 @ ''x'' @ str_int 45
   \<and> working_resolution [[7, 8 :: nat]] ''20x45'' = Inr [0, 32]
   \<and> process nearest_api example_pipeline [[7, 8]] ''20x45'' True False False 4 []
       = (Inl ValueError, [])"
proof -
  let ?pil = "replicate 32 (replicate 32 (7 :: nat) @ replicate 32 8)"
  have flags: "True \<or> False \<or> False" by simp
  have digits: "length (str_nat (nat (abs (70::int)))) \<le> 4300
      \<and> length (str_nat (nat (abs (45::int)))) \<le> 4300"
    by code_simp
  have digits': "length (str_nat (nat (abs (20::int)))) \<le> 4300
      \<and> length (str_nat (nat (abs (45::int)))) \<le> 4300"
    by code_simp
  have r: "(70::int) div 32 * 32 = 64" "(45::int) div 32 * 32 = 32"
    "(20::int) div 32 * 32 = 0"
    by simp_all
  have form: "''70x45'' = str_int 70 @ ''x'' @ str_int 45"
    by code_simp
  then have hyp: "''70x45'' = str_int 70 @ ''x'' @ str_int 45
           \<or> (''70x45'' = [] \<and> 70 = width [[7, 8 :: nat]] \<and> 45 = height [[7, 8 :: nat]])"
    by (rule disjI1)
  have form': "''20x45'' = str_int 20 @ ''x'' @ str_int 45"
    by code_simp
  then have hyp': "''20x45'' = str_int 20 @ ''x'' @ str_int 45
           \<or> (''20x45'' = [] \<and> 20 = width [[7, 8 :: nat]] \<and> 45 = height [[7, 8 :: nat]])"
    by (rule disjI1)
  note t = working_resolution_rounds_down[OF hyp flags digits, where api = nearest_api
             and self = example_pipeline and edge_mask_width = 4 and forwarded = "[]",
             unfolded Let_def r]
  note tp = working_resolution_rounds_down[OF hyp flags digits,
             where api = "nearest_api\<lparr>transform_image := \<lambda>img. Inl OtherError\<rparr>"
             and self = example_pipeline and edge_mask_width = 4 and forwarded = "[]",
             unfolded Let_def r]
  note tf = working_resolution_rounds_down[OF hyp flags digits,
             where api = "nearest_api\<lparr>forward := \<lambda>net dev t. Inl OtherError\<rparr>"
             and self = example_pipeline and edge_mask_width = 4 and forwarded = "[]",
             unfolded Let_def r]
  note ts = working_resolution_rounds_down[OF hyp' flags digits', where api = nearest_api
             and self = example_pipeline and edge_mask_width = 4 and forwarded = "[]",
             unfolded Let_def r]
  have rs: "resize (resample_image nearest_api) [[7, 8]] [64, 32] = Inr ?pil"
    by code_simp
  have rsp: "resize (resample_image (nearest_api\<lparr>transform_image := \<lambda>img. Inl OtherError\<rparr>))
               [[7, 8]] [64, 32] = Inr ?pil"
    by code_simp
  have rsf: "resize (resample_image (nearest_api\<lparr>forward := \<lambda>net dev t. Inl OtherError\<rparr>))
               [[7, 8]] [64, 32] = Inr ?pil"
    by code_simp
  from t have wr: "working_resolution [[7, 8 :: nat]] ''70x45'' = Inr [64, 32]"
    by (rule conjunct1)
  from t rs have size: "width ?pil = 64 \<and> height ?pil = 32"
    by blast
  have run: "process nearest_api example_pipeline [[7, 8]] ''70x45'' True False False 4 []
       = (Inr (Some [[255, 0]], None, None), [?pil])"
    by (rule nearest_run)
  have "proc (nearest_api\<lparr>transform_image := \<lambda>img. Inl OtherError\<rparr>) ?pil = Inl OtherError"
    by (simp add: proc_def)
  with tp rsp
  have proc_fails: "process (nearest_api\<lparr>transform_image := \<lambda>img. Inl OtherError\<rparr>)
         example_pipeline [[7, 8]] ''70x45'' True False False 4 [] = (Inl OtherError, [])"
    by blast
  have "proc (nearest_api\<lparr>forward := \<lambda>net dev t. Inl OtherError\<rparr>) ?pil = Inr ?pil
      \<and> forward (nearest_api\<lparr>forward := \<lambda>net dev t. Inl OtherError\<rparr>)
           (birefnet example_pipeline) (device example_pipeline)
           (if use_fp16 example_pipeline
            then half (nearest_api\<lparr>forward := \<lambda>net dev t. Inl OtherError\<rparr>) ?pil
            else ?pil) = Inl OtherError"
    by (simp add: proc_def nearest_api_def)
  with tf rsf
  have forward_fails: "process (nearest_api\<lparr>forward := \<lambda>net dev t. Inl OtherError\<rparr>)
         example_pipeline [[7, 8]] ''70x45'' True False False 4 []
       = (Inl OtherError, [] @ [?pil])"
    by blast
  from ts have wr': "working_resolution [[7, 8 :: nat]] ''20x45'' = Inr [0, 32]"
    by (rule conjunct1)
  have "((20::int) < 32 \<or> (45::int) < 32) \<and> - (2 ^ 31) \<le> (20::int) \<and> (20::int) < 2 ^ 31
      \<and> - (2 ^ 31) \<le> (45::int) \<and> (45::int) < 2 ^ 31
      \<and> (0, 32) \<noteq> (width [[7, 8 :: nat]], height [[7, 8 :: nat]])"
    by (simp add: width_def height_def ncols_def nrows_def)
  with ts
  have small: "process nearest_api example_pipeline [[7, 8]] ''20x45'' True False False 4 []
       = (Inl ValueError, [])"
    by blast
  from form wr rs size run proc_fails forward_fails form' wr' small
  show ?thesis by simp
qed

text \<open>
  C2 as stated fails for a requested dimension below 32. For the resolution
  \<open>31x31\<close>, and for the empty resolution on an input of 2 by 1 pixels, the target
  is \<open>(0, 0)\<close>: \<open>resize\<close> raises \<open>ValueError\<close>, and \<open>process\<close> raises it
  with no image resized and none given to the network.
\<close>

theorem working_resolution_small_counterexample:
  "''31x31'' = str_int 31 @ ''x'' @ str_int 31
   \<and> process example_api example_pipeline [[7, 8]] ''31x31'' True False False 4 []
       = (Inl ValueError, [])
   \<and> process example_api example_pipeline [[7, 8]] [] True False False 4 []
       = (Inl ValueError, [])"
  by code_simp

subsection \<open>C7: the returned mask is the prediction at the size of the input\<close>

text \<open>
  C7. Whenever \<open>process\<close> returns a mask, the mask was asked for, and it is the
  prediction resized to \<open>image.size\<close>: the input resized to the working
  resolution was preprocessed, the network was run on that tensor (in half
  precision when the pipeline uses it), its output was made an image, and the
  returned mask is that image resized to the width and height of the input, which
  are therefore its width and height.
\<close>

theorem returned_mask_is_resized_prediction:
  assumes "process api self img resolution return_mask return_foreground return_edge_mask
             edge_mask_width forwarded = (Inr (Some returned_mask, f, e), forwarded')"
  shows "return_mask
       \<and> (\<exists>image_resolution image_pil image_proc pred pred_image.
             working_resolution img resolution = Inr image_resolution
           \<and> resize (resample_image api) img image_resolution = Inr image_pil
           \<and> proc api image_pil = Inr image_proc
           \<and> forward api (birefnet self) (device self)
                (if use_fp16 self then half api image_proc else image_proc) = Inr pred
           \<and> to_pil_image api pred = Inr pred_image
           \<and> resize (resample_mask api) pred_image [width img, height img]
               = Inr returned_mask)
       \<and> width returned_mask = width img \<and> height returned_mask = height img"
proof (cases "return_mask \<or> return_foreground \<or> return_edge_mask")
  case True
  from process_returned_full[OF assms True]
  obtain image_resolution image_pil image_proc pred pred_image mask_img where
    steps: "working_resolution img resolution = Inr image_resolution"
      "resize (resample_image api) img image_resolution = Inr image_pil"
      "proc api image_pil = Inr image_proc"
      "forward api (birefnet self) (device self)
         (if use_fp16 self then half api image_proc else image_proc) = Inr pred"
      "to_pil_image api pred = Inr pred_image"
    and r: "resize (resample_mask api) pred_image [width img, height img] = Inr mask_img"
    and m: "Some returned_mask = (if return_mask then Some mask_img else None)"
    by blast
  from m have asked: "return_mask" and same: "mask_img = returned_mask"
    by (simp_all split: if_splits)
  from resize_size[OF r] have "width returned_mask = width img"
    "height returned_mask = height img"
    unfolding same by simp_all
  with steps r asked show ?thesis
    unfolding same by blast
next
  case False
  with assms show ?thesis by (simp add: process_no_flags)
qed

text \<open>An input of 2 by 1 pixels, worked on at 64 by 32: the prediction is 64 by
  32, white where the resized input is 7, and the mask comes back 2 by 1, white
  where the input is 7.\<close>

theorem returned_mask_is_resized_prediction_witness:
  "process nearest_api example_pipeline [[7, 8]] ''70x45'' True False False 4 []
     = (Inr (Some [[255, 0]], None, None), [replicate 32 (replicate 32 7 @ replicate 32 8)])
   \<and> working_resolution [[7, 8 :: nat]] ''70x45'' = Inr [64, 32]
   \<and> resize (resample_image nearest_api) [[7, 8]] [64, 32]
       = Inr (replicate 32 (replicate 32 7 @ replicate 32 8))
   \<and> to_pil_image nearest_api (replicate 32 (replicate 32 7 @ replicate 32 8))
       = Inr (replicate 32 (replicate 32 255 @ replicate 32 0))
   \<and> resize (resample_mask nearest_api) (replicate 32 (replicate 32 255 @ replicate 32 0))
         [width [[7, 8 :: nat]], height [[7, 8 :: nat]]]
       = Inr [[255, 0]]
   \<and> width [[255, 0 :: uint8]] = width [[7, 8 :: nat]]
   \<and> height [[255, 0 :: uint8]] = height [[7, 8 :: nat]]
   \<and> width [[7, 8 :: nat]] = 2 \<and> height [[7, 8 :: nat]] = 1"
proof -
  note run = nearest_run
  from returned_mask_is_resized_prediction[OF run]
  have size: "width [[255, 0 :: uint8]] = width [[7, 8 :: nat]]
      \<and> height [[255, 0 :: uint8]] = height [[7, 8 :: nat]]"
    by blast
  have "working_resolution [[7, 8 :: nat]] ''70x45'' = Inr [64, 32]"
    by code_simp
  moreover have "resize (resample_image nearest_api) [[7, 8]] [64, 32]
       = Inr (replicate 32 (replicate 32 7 @ replicate 32 8))"
    by code_simp
  moreover have "to_pil_image nearest_api (replicate 32 (replicate 32 7 @ replicate 32 8))
       = Inr (replicate 32 (replicate 32 255 @ replicate 32 0))"
    by code_simp
  moreover have "resize (resample_mask nearest_api)
         (replicate 32 (replicate 32 255 @ replicate 32 0))
         [width [[7, 8 :: nat]], height [[7, 8 :: nat]]]
       = Inr [[255, 0]]"
    by code_simp
  moreover have "width [[7, 8 :: nat]] = 2 \<and> height [[7, 8 :: nat]] = 1"
    by (simp add: width_def height_def ncols_def nrows_def)
  ultimately show ?thesis using run size by blast
qed

subsection \<open>C9: the empty resolution is the size of the input\<close>

text \<open>
  C9. With the empty string as resolution, \<open>process\<close> does what it does for the
  string \<open>{image.width}x{image.height}\<close>: the requested resolution is the size
  of the input, and the working resolution is that size rounded down to multiples
  of 32.
\<close>

theorem empty_resolution_uses_image_size:
  "process api self img [] return_mask return_foreground return_edge_mask edge_mask_width
     forwarded
   = process api self img (str_int (width img) @ ''x'' @ str_int (height img))
       return_mask return_foreground return_edge_mask edge_mask_width forwarded
   \<and> working_resolution img []
       = working_resolution img (str_int (width img) @ ''x'' @ str_int (height img))
   \<and> working_resolution img [] = Inr [width img div 32 * 32, height img div 32 * 32]"
proof -
  have "working_resolution img []
          = working_resolution img (str_int (width img) @ ''x'' @ str_int (height img))"
    by (simp add: working_resolution_def)
  then show ?thesis
    by (simp add: process_def working_resolution_empty)
qed

end
